theory Spec2Isabelle
  imports Complex_Main
begin

section \<open>Diagram editor: shapes, connectors, history\<close>

text \<open>
  A shallow embedding of the connector-binding core of the diagram editor:
  \<^verbatim>\<open>utils.js\<close> (geometry helpers), \<^verbatim>\<open>shapes.js\<close> (shape model and boundary
  resolution), \<^verbatim>\<open>connectors.js\<close> (snapping and binding propagation),
  \<^verbatim>\<open>history.js\<close> (undo/redo stacks) and the parts of \<^verbatim>\<open>tools.js\<close> that draw,
  move and delete shapes.

  JavaScript numbers are modelled as mathematical reals: \<^verbatim>\<open>Math.sqrt\<close>, \<^verbatim>\<open>Math.cos\<close>,
  \<^verbatim>\<open>Math.sin\<close> are \<^const>\<open>sqrt\<close>, \<^const>\<open>cos\<close>, \<^const>\<open>sin\<close>. A division by zero is
  \<open>Infinity\<close> or \<open>NaN\<close> in the source and \<open>0\<close> in HOL, so the theorems about
  boundary points are stated for shapes of positive width and height, where no
  division by zero occurs. Where a statement depends on the rounding of
  doubles, the functions that move a shape and resolve a binding are given a
  second time with the arithmetic as a parameter, and the rounding to a double
  is defined. The values that the history clones are JavaScript values, with
  \<open>NaN\<close> and the infinities among the numbers.
  Shape lists mutated in place by the loops of \<^verbatim>\<open>connectors.js\<close> are passed and
  returned. The history stacks and the tool state hold references to arrays:
  there an array is an address in an explicit heap, so that a copy and the
  object it was copied from can be told apart.
\<close>

subsection \<open>utils.js\<close>

definition distance :: "real \<Rightarrow> real \<Rightarrow> real \<Rightarrow> real \<Rightarrow> real" where
  "distance x1 y1 x2 y2 = sqrt ((x2 - x1)\<^sup>2 + (y2 - y1)\<^sup>2)"

text \<open>
  \<^verbatim>\<open>Math.atan2(y, x)\<close> on reals: the angle in \<open>(-\<pi>, \<pi>]\<close> of the point \<open>(x, y)\<close>,
  and \<open>0\<close> at the origin.
\<close>

definition atan2 :: "real \<Rightarrow> real \<Rightarrow> real" where
  "atan2 y x =
     (if 0 < x then arctan (y / x)
      else if x < 0 then (if 0 \<le> y then arctan (y / x) + pi else arctan (y / x) - pi)
      else if 0 < y then pi / 2
      else if y < 0 then - (pi / 2)
      else 0)"

definition normalizeBounds :: "real \<Rightarrow> real \<Rightarrow> real \<Rightarrow> real \<Rightarrow> real \<times> real \<times> real \<times> real" where
  "normalizeBounds x1 y1 x2 y2 = (min x1 x2, min y1 y2, \<bar>x2 - x1\<bar>, \<bar>y2 - y1\<bar>)"

text \<open>
  \<^verbatim>\<open>Utils.deepClone(obj)\<close> is \<^verbatim>\<open>JSON.parse(JSON.stringify(obj))\<close>. The JavaScript
  values a shape list is made of: \<^verbatim>\<open>undefined\<close>, \<^verbatim>\<open>null\<close>, booleans, numbers,
  strings, arrays and plain objects, an object being the list of its properties
  in their order. A number is a finite one (a real here, with one zero),
  \<^verbatim>\<open>NaN\<close> or one of the two infinities.
\<close>

datatype number = Finite real | NaN | PosInfinity | NegInfinity

datatype json =
    JUndefined
  | JNull
  | JBool bool
  | JNumber number
  | JString string
  | JArray "json list"
  | JObject "(string \<times> json) list"

text \<open>
  What the round trip makes of a value held in an array: \<^verbatim>\<open>JSON.stringify\<close>
  writes \<^verbatim>\<open>null\<close> for \<^verbatim>\<open>NaN\<close>, for an infinity and for an array element that is
  \<^verbatim>\<open>undefined\<close>, and leaves out a property whose value is \<^verbatim>\<open>undefined\<close>.
\<close>

fun jsonRoundTrip :: "json \<Rightarrow> json" where
  "jsonRoundTrip JUndefined = JNull"
| "jsonRoundTrip JNull = JNull"
| "jsonRoundTrip (JBool b) = JBool b"
| "jsonRoundTrip (JNumber n) = (case n of Finite r \<Rightarrow> JNumber (Finite r) | _ \<Rightarrow> JNull)"
| "jsonRoundTrip (JString s) = JString s"
| "jsonRoundTrip (JArray vs) = JArray (map jsonRoundTrip vs)"
| "jsonRoundTrip (JObject kvs) =
     JObject (map (\<lambda>kv. (fst kv, jsonRoundTrip (snd kv))) (filter (\<lambda>kv. snd kv \<noteq> JUndefined) kvs))"

subsection \<open>shapes.js: the shape record\<close>

type_synonym ident = string

record point =
  pt_x :: real
  pt_y :: real

record bounds =
  b_x :: real
  b_y :: real
  b_w :: real
  b_h :: real

record binding =
  shapeId :: ident
  angle :: real

text \<open>The result of a snap query: \<^verbatim>\<open>{ shapeId, angle, x, y }\<close>.\<close>

record snap =
  snapShapeId :: ident
  snapAngle :: real
  snapX :: real
  snapY :: real

text \<open>
  The shape object of \<^verbatim>\<open>Shapes.create\<close>. The fields \<^verbatim>\<open>id\<close>, \<^verbatim>\<open>type\<close>, \<^verbatim>\<open>x\<close>, \<^verbatim>\<open>y\<close> and
  \<^verbatim>\<open>text\<close> are \<open>sid\<close>, \<open>stype\<close>, \<open>sx\<close>, \<open>sy\<close> and \<open>stext\<close>; \<open>hoverSnap\<close> is the
  temporary \<^verbatim>\<open>_hoverSnap\<close> field that the draw gesture attaches to the shape
  in progress. A \<^verbatim>\<open>null\<close> field is \<open>None\<close>.
\<close>

record shape =
  sid :: ident
  stype :: string
  sx :: real
  sy :: real
  width :: real
  height :: real
  strokeColor :: string
  fillColor :: string
  strokeWidth :: real
  opacity :: real
  rotation :: real
  points :: "point list option"
  stext :: string
  fontSize :: real
  fontFamily :: string
  textVAlign :: string
  arrowHead :: bool
  edgeStyle :: string
  strokeDash :: string
  shapeFillStyle :: string
  startBinding :: "binding option"
  endBinding :: "binding option"
  seed :: int
  hoverSnap :: "snap option"

definition CONTAINER_TYPES :: "string list" where
  "CONTAINER_TYPES =
    [''rectangle'', ''ellipse'', ''diamond'',
     ''database'', ''queue'', ''cache'', ''server'', ''cloud'', ''firewall'',
     ''loadbalancer'', ''apigateway'', ''cdn'', ''user'', ''microservice'',
     ''pubsub'', ''storage'', ''function'', ''container'', ''eventbus'',
     ''browser'', ''mobile'', ''monitor'', ''notification'', ''auth'',
     ''externalapi'', ''scheduler'', ''logger'', ''search'', ''datawarehouse'',
     ''blobstorage'', ''filestorage'', ''queuestorage'', ''tablestorage'',
     ''datalake'', ''manageddisks'',
     ''azuresql'', ''cosmosdb'', ''azuremysql'', ''azurepostgres'',
     ''sqlmanaged'', ''rediscache'', ''datafactory'', ''synapse'']"

text \<open>
  \<^verbatim>\<open>Shapes.create(type, props)\<close>: the defaults. The fresh id and the random seed
  are parameters; the caller's \<^verbatim>\<open>props\<close> are record updates applied to the result.
\<close>

definition create :: "ident \<Rightarrow> int \<Rightarrow> string \<Rightarrow> shape" where
  "create newId newSeed ty =
     \<lparr> sid = newId, stype = ty, sx = 0, sy = 0, width = 0, height = 0,
       strokeColor = ''#1e1e1e'', fillColor = ''transparent'', strokeWidth = 2,
       opacity = 1, rotation = 0, points = None, stext = '''', fontSize = 16,
       fontFamily = ''Segoe UI, system-ui, sans-serif'', textVAlign = ''bottom'',
       arrowHead = (ty = ''arrow''), edgeStyle = ''sharp'', strokeDash = ''solid'',
       shapeFillStyle = ''none'', startBinding = None, endBinding = None,
       seed = newSeed, hoverSnap = None \<rparr>"


text \<open>
  The box enclosing a list of points. The source starts the four running
  extrema at \<open>\<plusminus>Infinity\<close>; it is only called on a non-empty list, where
  starting at the first point gives the same result.
\<close>

definition pointsBounds :: "point list \<Rightarrow> bounds" where
  "pointsBounds ps =
     (let minX = fold (\<lambda>p m. min m (pt_x p)) ps (pt_x (hd ps));
          minY = fold (\<lambda>p m. min m (pt_y p)) ps (pt_y (hd ps));
          maxX = fold (\<lambda>p m. max m (pt_x p)) ps (pt_x (hd ps));
          maxY = fold (\<lambda>p m. max m (pt_y p)) ps (pt_y (hd ps))
      in \<lparr> b_x = minX, b_y = minY, b_w = maxX - minX, b_h = maxY - minY \<rparr>)"

definition storedBox :: "shape \<Rightarrow> bounds" where
  "storedBox s = \<lparr> b_x = sx s, b_y = sy s, b_w = width s, b_h = height s \<rparr>"

definition getBounds :: "shape \<Rightarrow> bounds" where
  "getBounds s =
     (if stype s = ''line'' \<or> stype s = ''arrow'' then
        (case points s of
           Some ps \<Rightarrow> if 2 \<le> length ps then pointsBounds ps else storedBox s
         | None \<Rightarrow> storedBox s)
      else if stype s = ''freehand'' then
        (case points s of
           Some ps \<Rightarrow> if 0 < length ps then pointsBounds ps else storedBox s
         | None \<Rightarrow> storedBox s)
      else storedBox s)"

subsection \<open>shapes.js: move and resize\<close>

definition move :: "shape \<Rightarrow> real \<Rightarrow> real \<Rightarrow> shape" where
  "move s dx dy =
     (case points s of
        Some ps \<Rightarrow> s\<lparr> points := Some (map (\<lambda>p. \<lparr> pt_x = pt_x p + dx, pt_y = pt_y p + dy \<rparr>) ps) \<rparr>
      | None \<Rightarrow> s\<lparr> sx := sx s + dx, sy := sy s + dy \<rparr>)"

datatype handle = Hnw | Hn | Hne | He | Hse | Hs | Hsw | Hw | HlineStart | HlineEnd

text \<open>
  \<open>TypeError\<close>: a field of \<^verbatim>\<open>null\<close> or \<^verbatim>\<open>undefined\<close> is read or written.
  \<open>SparseArray\<close>: an assignment past the end of an array leaves a hole, which a
  list cannot hold.
\<close>

datatype error = TypeError | SparseArray

text \<open>The last two statements of \<^verbatim>\<open>resize\<close>: enforce the minimum size.\<close>

definition enforceMinSize :: "shape \<Rightarrow> shape" where
  "enforceMinSize s =
     (let s1 = (if width s < 10 then s\<lparr> width := 10 \<rparr> else s)
      in if height s1 < 10 then s1\<lparr> height := 10 \<rparr> else s1)"

text \<open>
  \<^verbatim>\<open>Shapes.resize(shape, handle, dx, dy)\<close>. An endpoint handle on a shape whose
  point list is empty reads a field of \<^verbatim>\<open>undefined\<close>, which throws.
\<close>

fun resize :: "shape \<Rightarrow> handle \<Rightarrow> real \<Rightarrow> real \<Rightarrow> error + shape" where
  "resize s HlineStart dx dy =
     (case points s of
        Some ps \<Rightarrow>
          (if ps = [] then Inl TypeError
           else Inr (s\<lparr> points := Some (ps[0 := \<lparr> pt_x = pt_x (ps ! 0) + dx,
                                                   pt_y = pt_y (ps ! 0) + dy \<rparr>]) \<rparr>))
      | None \<Rightarrow> Inr (enforceMinSize s))"
| "resize s HlineEnd dx dy =
     (case points s of
        Some ps \<Rightarrow>
          (if ps = [] then Inl TypeError
           else Inr (s\<lparr> points := Some (ps[length ps - 1 :=
                          \<lparr> pt_x = pt_x (ps ! (length ps - 1)) + dx,
                            pt_y = pt_y (ps ! (length ps - 1)) + dy \<rparr>]) \<rparr>))
      | None \<Rightarrow> Inr (enforceMinSize s))"
| "resize s Hnw dx dy =
     Inr (enforceMinSize (s\<lparr> sx := sx s + dx, sy := sy s + dy,
                             width := width s - dx, height := height s - dy \<rparr>))"
| "resize s Hn dx dy =
     Inr (enforceMinSize (s\<lparr> sy := sy s + dy, height := height s - dy \<rparr>))"
| "resize s Hne dx dy =
     Inr (enforceMinSize (s\<lparr> width := width s + dx, sy := sy s + dy,
                             height := height s - dy \<rparr>))"
| "resize s He dx dy =
     Inr (enforceMinSize (s\<lparr> width := width s + dx \<rparr>))"
| "resize s Hse dx dy =
     Inr (enforceMinSize (s\<lparr> width := width s + dx, height := height s + dy \<rparr>))"
| "resize s Hs dx dy =
     Inr (enforceMinSize (s\<lparr> height := height s + dy \<rparr>))"
| "resize s Hsw dx dy =
     Inr (enforceMinSize (s\<lparr> sx := sx s + dx, width := width s - dx,
                             height := height s + dy \<rparr>))"
| "resize s Hw dx dy =
     Inr (enforceMinSize (s\<lparr> sx := sx s + dx, width := width s - dx \<rparr>))"

definition compassHandles :: "handle list" where
  "compassHandles = [Hnw, Hn, Hne, He, Hse, Hs, Hsw, Hw]"

subsection \<open>shapes.js: boundary points\<close>

text \<open>Ray from rectangle center to target, intersected with the rectangle's edges.\<close>

definition rayRectFromCenter :: "real \<Rightarrow> real \<Rightarrow> real \<Rightarrow> real \<Rightarrow> real \<Rightarrow> real \<Rightarrow> point" where
  "rayRectFromCenter cx cy tx ty halfW halfH =
     (let dx = tx - cx; dy = ty - cy in
      if dx = 0 \<and> dy = 0 then \<lparr> pt_x = cx + halfW, pt_y = cy \<rparr>
      else
        let absDx = \<bar>dx\<bar>; absDy = \<bar>dy\<bar>;
            scale = (if absDx / halfW > absDy / halfH then halfW / absDx else halfH / absDy)
        in \<lparr> pt_x = cx + dx * scale, pt_y = cy + dy * scale \<rparr>)"

text \<open>Ray from ellipse center to target: the source takes the point of parameter \<open>atan2 dy dx\<close>.\<close>

definition rayEllipseFromCenter :: "real \<Rightarrow> real \<Rightarrow> real \<Rightarrow> real \<Rightarrow> real \<Rightarrow> real \<Rightarrow> point" where
  "rayEllipseFromCenter cx cy tx ty rx ry =
     (let dx = tx - cx; dy = ty - cy in
      if dx = 0 \<and> dy = 0 then \<lparr> pt_x = cx + rx, pt_y = cy \<rparr>
      else
        let a = atan2 dy dx
        in \<lparr> pt_x = cx + rx * cos a, pt_y = cy + ry * sin a \<rparr>)"

text \<open>Ray from diamond center to target; the edges satisfy \<open>|x/halfW| + |y/halfH| = 1\<close>.\<close>

definition rayDiamondFromCenter :: "real \<Rightarrow> real \<Rightarrow> real \<Rightarrow> real \<Rightarrow> real \<Rightarrow> real \<Rightarrow> point" where
  "rayDiamondFromCenter cx cy tx ty halfW halfH =
     (let dx = tx - cx; dy = ty - cy in
      if dx = 0 \<and> dy = 0 then \<lparr> pt_x = cx, pt_y = cy - halfH \<rparr>
      else
        let scale = 1 / (\<bar>dx\<bar> / halfW + \<bar>dy\<bar> / halfH)
        in \<lparr> pt_x = cx + dx * scale, pt_y = cy + dy * scale \<rparr>)"

text \<open>The three groups of \<^verbatim>\<open>case\<close> labels in \<^verbatim>\<open>getBoundaryPoint\<close>.\<close>

definition rectCases :: "string list" where
  "rectCases =
    [''rectangle'', ''database'', ''queue'', ''cache'', ''server'', ''firewall'',
     ''loadbalancer'', ''apigateway'', ''cdn'', ''pubsub'', ''storage'', ''function'',
     ''container'', ''eventbus'', ''browser'', ''mobile'', ''monitor'', ''notification'',
     ''auth'', ''externalapi'', ''scheduler'', ''logger'', ''search'', ''datawarehouse'']"

definition ellipseCases :: "string list" where
  "ellipseCases = [''ellipse'', ''cloud'', ''user'']"

definition diamondCases :: "string list" where
  "diamondCases = [''diamond'', ''microservice'']"

text \<open>
  \<^verbatim>\<open>Shapes.getBoundaryPoint\<close>. Every branch of the source returns a point object,
  the default branch the rectangle's, so the result is never \<^verbatim>\<open>null\<close>.
\<close>

definition getBoundaryPoint :: "shape \<Rightarrow> real \<Rightarrow> real \<Rightarrow> point" where
  "getBoundaryPoint s targetX targetY =
     (let b = getBounds s;
          cx = b_x b + b_w b / 2;
          cy = b_y b + b_h b / 2
      in if stype s \<in> set rectCases then
           rayRectFromCenter cx cy targetX targetY (b_w b / 2) (b_h b / 2)
         else if stype s \<in> set ellipseCases then
           rayEllipseFromCenter cx cy targetX targetY (b_w b / 2) (b_h b / 2)
         else if stype s \<in> set diamondCases then
           rayDiamondFromCenter cx cy targetX targetY (b_w b / 2) (b_h b / 2)
         else rayRectFromCenter cx cy targetX targetY (b_w b / 2) (b_h b / 2))"

definition getBoundaryPointFromAngle :: "shape \<Rightarrow> real \<Rightarrow> point" where
  "getBoundaryPointFromAngle s a =
     (let b = getBounds s;
          cx = b_x b + b_w b / 2;
          cy = b_y b + b_h b / 2;
          far = 10000
      in getBoundaryPoint s (cx + cos a * far) (cy + sin a * far))"

text \<open>The direction from the centre of a shape's bounds to a point.\<close>

definition angleFromCenter :: "shape \<Rightarrow> point \<Rightarrow> real" where
  "angleFromCenter s p =
     (let b = getBounds s;
          cx = b_x b + b_w b / 2;
          cy = b_y b + b_h b / 2
      in atan2 (pt_y p - cy) (pt_x p - cx))"

subsection \<open>connectors.js\<close>

definition SNAP_DISTANCE :: real where
  "SNAP_DISTANCE = 20"

text \<open>
  One iteration of the loop of \<^verbatim>\<open>findNearestBoundaryPoint\<close> on the pair
  \<open>(best, bestDist)\<close>. The source's test \<^verbatim>\<open>if (!bp) continue\<close> never fires.
\<close>

definition nearestStep ::
  "real \<Rightarrow> real \<Rightarrow> ident list \<Rightarrow> snap option \<times> real \<Rightarrow> shape \<Rightarrow> snap option \<times> real" where
  "nearestStep worldX worldY excludeIds acc s =
     (if sid s \<in> set excludeIds then acc
      else if stype s = ''line'' \<or> stype s = ''arrow'' \<or> stype s = ''freehand'' \<or> stype s = ''text''
      then acc
      else
        let bp = getBoundaryPoint s worldX worldY;
            d = distance worldX worldY (pt_x bp) (pt_y bp)
        in if d < snd acc then
             (Some \<lparr> snapShapeId = sid s, snapAngle = angleFromCenter s bp,
                     snapX = pt_x bp, snapY = pt_y bp \<rparr>, d)
           else acc)"

definition findNearestBoundaryPoint :: "shape list \<Rightarrow> real \<Rightarrow> real \<Rightarrow> ident list \<Rightarrow> snap option" where
  "findNearestBoundaryPoint shapes worldX worldY excludeIds =
     fst (foldl (nearestStep worldX worldY excludeIds) (None, SNAP_DISTANCE) shapes)"

text \<open>\<^verbatim>\<open>shapes.find(s => s.id === i)\<close>: the first shape with that id.\<close>

definition findShape :: "shape list \<Rightarrow> ident \<Rightarrow> shape option" where
  "findShape shapes i = find (\<lambda>s. sid s = i) shapes"

text \<open>\<^verbatim>\<open>shape.points[k] = { x: pt.x, y: pt.y }\<close>, for an index inside the array.\<close>

definition setPoint :: "shape \<Rightarrow> nat \<Rightarrow> point \<Rightarrow> shape" where
  "setPoint s k pt =
     s\<lparr> points := map_option (\<lambda>ps. ps[k := \<lparr> pt_x = pt_x pt, pt_y = pt_y pt \<rparr>]) (points s) \<rparr>"

definition lastIndex :: "shape \<Rightarrow> nat" where
  "lastIndex s = (case points s of Some ps \<Rightarrow> length ps - 1 | None \<Rightarrow> 0)"

text \<open>The guard that opens the loop body of both propagation functions.\<close>

definition hasEndpoints :: "shape \<Rightarrow> bool" where
  "hasEndpoints s \<longleftrightarrow>
     (stype s = ''arrow'' \<or> stype s = ''line'') \<and>
     (case points s of Some ps \<Rightarrow> 2 \<le> length ps | None \<Rightarrow> False)"

text \<open>
  The loops mutate the shapes of the array in place, and each lookup of a
  target reads the array as it is at that moment. The array is the state; one
  iteration rewrites the entry at index \<open>i\<close>, first for the start binding and
  then for the end binding.
\<close>

definition updateStart :: "shape list \<Rightarrow> ident \<Rightarrow> nat \<Rightarrow> shape list" where
  "updateStart shapes movedShapeId i =
     (let s = shapes ! i in
      case startBinding s of
        None \<Rightarrow> shapes
      | Some b \<Rightarrow>
          if shapeId b = movedShapeId then
            (case findShape shapes movedShapeId of
               Some target \<Rightarrow> shapes[i := setPoint s 0 (getBoundaryPointFromAngle target (angle b))]
             | None \<Rightarrow> shapes)
          else shapes)"

definition updateEnd :: "shape list \<Rightarrow> ident \<Rightarrow> nat \<Rightarrow> shape list" where
  "updateEnd shapes movedShapeId i =
     (let s = shapes ! i in
      case endBinding s of
        None \<Rightarrow> shapes
      | Some b \<Rightarrow>
          if shapeId b = movedShapeId then
            (case findShape shapes movedShapeId of
               Some target \<Rightarrow>
                 shapes[i := setPoint s (lastIndex s) (getBoundaryPointFromAngle target (angle b))]
             | None \<Rightarrow> shapes)
          else shapes)"

definition updateAt :: "ident \<Rightarrow> shape list \<Rightarrow> nat \<Rightarrow> shape list" where
  "updateAt movedShapeId shapes i =
     (if hasEndpoints (shapes ! i)
      then updateEnd (updateStart shapes movedShapeId i) movedShapeId i
      else shapes)"

definition updateBindings :: "shape list \<Rightarrow> ident \<Rightarrow> shape list" where
  "updateBindings shapes movedShapeId =
     foldl (updateAt movedShapeId) shapes [0..<length shapes]"

definition resolveStart :: "shape list \<Rightarrow> nat \<Rightarrow> shape list" where
  "resolveStart shapes i =
     (let s = shapes ! i in
      case startBinding s of
        None \<Rightarrow> shapes
      | Some b \<Rightarrow>
          (case findShape shapes (shapeId b) of
             Some target \<Rightarrow> shapes[i := setPoint s 0 (getBoundaryPointFromAngle target (angle b))]
           | None \<Rightarrow> shapes[i := s\<lparr> startBinding := None \<rparr>]))"

definition resolveEnd :: "shape list \<Rightarrow> nat \<Rightarrow> shape list" where
  "resolveEnd shapes i =
     (let s = shapes ! i in
      case endBinding s of
        None \<Rightarrow> shapes
      | Some b \<Rightarrow>
          (case findShape shapes (shapeId b) of
             Some target \<Rightarrow>
               shapes[i := setPoint s (lastIndex s) (getBoundaryPointFromAngle target (angle b))]
           | None \<Rightarrow> shapes[i := s\<lparr> endBinding := None \<rparr>]))"

definition resolveAt :: "shape list \<Rightarrow> nat \<Rightarrow> shape list" where
  "resolveAt shapes i =
     (if hasEndpoints (shapes ! i) then resolveEnd (resolveStart shapes i) i else shapes)"

definition resolveAllBindings :: "shape list \<Rightarrow> shape list" where
  "resolveAllBindings shapes = foldl resolveAt shapes [0..<length shapes]"


subsection \<open>The geometry in floating-point arithmetic\<close>

text \<open>
  A JavaScript number is an IEEE 754 double: each of \<^verbatim>\<open>+\<close>, \<^verbatim>\<open>-\<close>, \<^verbatim>\<open>*\<close> and \<^verbatim>\<open>/\<close>
  returns the exact result rounded to a double, and \<^verbatim>\<open>Math.cos\<close>, \<^verbatim>\<open>Math.sin\<close> and
  \<^verbatim>\<open>Math.atan2\<close> return an approximation that the engine chooses. An arithmetic
  is a rounding function with these three library functions. The functions of
  \<^verbatim>\<open>shapes.js\<close> and \<^verbatim>\<open>connectors.js\<close> that move a shape and resolve a binding
  follow once more, every operation of the source going through the
  arithmetic; comparisons, \<^verbatim>\<open>Math.abs\<close>, \<^verbatim>\<open>Math.min\<close> and \<^verbatim>\<open>Math.max\<close> do not round.
  With the arithmetic \<open>exact\<close> they are the functions over the reals defined
  above; with \<open>ieee\<close> they compute as the source does on finite doubles, as long
  as no result overflows or is subnormal and no divisor is zero.
\<close>

record arith =
  rnd :: "real \<Rightarrow> real"
  Math_cos :: "real \<Rightarrow> real"
  Math_sin :: "real \<Rightarrow> real"
  Math_atan2 :: "real \<Rightarrow> real \<Rightarrow> real"

definition fadd :: "arith \<Rightarrow> real \<Rightarrow> real \<Rightarrow> real" where
  "fadd ar a b = rnd ar (a + b)"

definition fsub :: "arith \<Rightarrow> real \<Rightarrow> real \<Rightarrow> real" where
  "fsub ar a b = rnd ar (a - b)"

definition fmul :: "arith \<Rightarrow> real \<Rightarrow> real \<Rightarrow> real" where
  "fmul ar a b = rnd ar (a * b)"

definition fdiv :: "arith \<Rightarrow> real \<Rightarrow> real \<Rightarrow> real" where
  "fdiv ar a b = rnd ar (a / b)"

definition exact :: arith where
  "exact = \<lparr> rnd = (\<lambda>x. x), Math_cos = cos, Math_sin = sin, Math_atan2 = atan2 \<rparr>"

text \<open>
  Rounding to the nearest double, ties to even: a double has a significand of
  53 bits, so the doubles from \<open>2 powi e\<close> up to \<open>2 powi (e + 1)\<close> are the
  multiples of \<open>2 powi (e - 52)\<close>. The exponent is not bounded here.
\<close>

definition binade :: "real \<Rightarrow> int" where
  "binade x = \<lfloor>log 2 \<bar>x\<bar>\<rfloor>"

definition roundTiesToEven :: "real \<Rightarrow> int" where
  "roundTiesToEven r =
     (let f = \<lfloor>r\<rfloor> in
      if r - of_int f < 1 / 2 then f
      else if 1 / 2 < r - of_int f then f + 1
      else if even f then f else f + 1)"

definition toDouble :: "real \<Rightarrow> real" where
  "toDouble x =
     (if x = 0 then 0
      else let u = 2 powi (binade x - 52) in of_int (roundTiesToEven (x / u)) * u)"

text \<open>
  IEEE arithmetic on doubles, with library functions that round the exact
  value. An engine's \<^verbatim>\<open>Math.cos\<close>, \<^verbatim>\<open>Math.sin\<close> and \<^verbatim>\<open>Math.atan2\<close> may differ
  from these in the last bit; the values the language fixes are the same,
  among them \<^verbatim>\<open>Math.cos(0) = 1\<close> and \<^verbatim>\<open>Math.sin(0) = 0\<close>. The numbers given to
  the functions are doubles themselves, values of \<open>toDouble\<close>.
\<close>

definition ieee :: arith where
  "ieee = \<lparr> rnd = toDouble, Math_cos = (\<lambda>t. toDouble (cos t)),
            Math_sin = (\<lambda>t. toDouble (sin t)),
            Math_atan2 = (\<lambda>y x. toDouble (atan2 y x)) \<rparr>"

definition pointsBounds_fp :: "arith \<Rightarrow> point list \<Rightarrow> bounds" where
  "pointsBounds_fp ar ps =
     (let minX = fold (\<lambda>p m. min m (pt_x p)) ps (pt_x (hd ps));
          minY = fold (\<lambda>p m. min m (pt_y p)) ps (pt_y (hd ps));
          maxX = fold (\<lambda>p m. max m (pt_x p)) ps (pt_x (hd ps));
          maxY = fold (\<lambda>p m. max m (pt_y p)) ps (pt_y (hd ps))
      in \<lparr> b_x = minX, b_y = minY, b_w = fsub ar maxX minX, b_h = fsub ar maxY minY \<rparr>)"

definition getBounds_fp :: "arith \<Rightarrow> shape \<Rightarrow> bounds" where
  "getBounds_fp ar s =
     (if stype s = ''line'' \<or> stype s = ''arrow'' then
        (case points s of
           Some ps \<Rightarrow> if 2 \<le> length ps then pointsBounds_fp ar ps else storedBox s
         | None \<Rightarrow> storedBox s)
      else if stype s = ''freehand'' then
        (case points s of
           Some ps \<Rightarrow> if 0 < length ps then pointsBounds_fp ar ps else storedBox s
         | None \<Rightarrow> storedBox s)
      else storedBox s)"

definition move_fp :: "arith \<Rightarrow> shape \<Rightarrow> real \<Rightarrow> real \<Rightarrow> shape" where
  "move_fp ar s dx dy =
     (case points s of
        Some ps \<Rightarrow>
          s\<lparr> points := Some (map (\<lambda>p. \<lparr> pt_x = fadd ar (pt_x p) dx, pt_y = fadd ar (pt_y p) dy \<rparr>) ps) \<rparr>
      | None \<Rightarrow> s\<lparr> sx := fadd ar (sx s) dx, sy := fadd ar (sy s) dy \<rparr>)"

definition rayRectFromCenter_fp ::
  "arith \<Rightarrow> real \<Rightarrow> real \<Rightarrow> real \<Rightarrow> real \<Rightarrow> real \<Rightarrow> real \<Rightarrow> point" where
  "rayRectFromCenter_fp ar cx cy tx ty halfW halfH =
     (let dx = fsub ar tx cx; dy = fsub ar ty cy in
      if dx = 0 \<and> dy = 0 then \<lparr> pt_x = fadd ar cx halfW, pt_y = cy \<rparr>
      else
        let absDx = \<bar>dx\<bar>; absDy = \<bar>dy\<bar>;
            scale = (if fdiv ar absDx halfW > fdiv ar absDy halfH
                     then fdiv ar halfW absDx else fdiv ar halfH absDy)
        in \<lparr> pt_x = fadd ar cx (fmul ar dx scale), pt_y = fadd ar cy (fmul ar dy scale) \<rparr>)"

definition rayEllipseFromCenter_fp ::
  "arith \<Rightarrow> real \<Rightarrow> real \<Rightarrow> real \<Rightarrow> real \<Rightarrow> real \<Rightarrow> real \<Rightarrow> point" where
  "rayEllipseFromCenter_fp ar cx cy tx ty rx ry =
     (let dx = fsub ar tx cx; dy = fsub ar ty cy in
      if dx = 0 \<and> dy = 0 then \<lparr> pt_x = fadd ar cx rx, pt_y = cy \<rparr>
      else
        let a = Math_atan2 ar dy dx
        in \<lparr> pt_x = fadd ar cx (fmul ar rx (Math_cos ar a)),
             pt_y = fadd ar cy (fmul ar ry (Math_sin ar a)) \<rparr>)"

definition rayDiamondFromCenter_fp ::
  "arith \<Rightarrow> real \<Rightarrow> real \<Rightarrow> real \<Rightarrow> real \<Rightarrow> real \<Rightarrow> real \<Rightarrow> point" where
  "rayDiamondFromCenter_fp ar cx cy tx ty halfW halfH =
     (let dx = fsub ar tx cx; dy = fsub ar ty cy in
      if dx = 0 \<and> dy = 0 then \<lparr> pt_x = cx, pt_y = fsub ar cy halfH \<rparr>
      else
        let scale = fdiv ar 1 (fadd ar (fdiv ar \<bar>dx\<bar> halfW) (fdiv ar \<bar>dy\<bar> halfH))
        in \<lparr> pt_x = fadd ar cx (fmul ar dx scale), pt_y = fadd ar cy (fmul ar dy scale) \<rparr>)"

definition getBoundaryPoint_fp :: "arith \<Rightarrow> shape \<Rightarrow> real \<Rightarrow> real \<Rightarrow> point" where
  "getBoundaryPoint_fp ar s targetX targetY =
     (let b = getBounds_fp ar s;
          cx = fadd ar (b_x b) (fdiv ar (b_w b) 2);
          cy = fadd ar (b_y b) (fdiv ar (b_h b) 2)
      in if stype s \<in> set rectCases then
           rayRectFromCenter_fp ar cx cy targetX targetY (fdiv ar (b_w b) 2) (fdiv ar (b_h b) 2)
         else if stype s \<in> set ellipseCases then
           rayEllipseFromCenter_fp ar cx cy targetX targetY (fdiv ar (b_w b) 2) (fdiv ar (b_h b) 2)
         else if stype s \<in> set diamondCases then
           rayDiamondFromCenter_fp ar cx cy targetX targetY (fdiv ar (b_w b) 2) (fdiv ar (b_h b) 2)
         else rayRectFromCenter_fp ar cx cy targetX targetY (fdiv ar (b_w b) 2) (fdiv ar (b_h b) 2))"

definition getBoundaryPointFromAngle_fp :: "arith \<Rightarrow> shape \<Rightarrow> real \<Rightarrow> point" where
  "getBoundaryPointFromAngle_fp ar s a =
     (let b = getBounds_fp ar s;
          cx = fadd ar (b_x b) (fdiv ar (b_w b) 2);
          cy = fadd ar (b_y b) (fdiv ar (b_h b) 2);
          far = 10000
      in getBoundaryPoint_fp ar s (fadd ar cx (fmul ar (Math_cos ar a) far))
                                  (fadd ar cy (fmul ar (Math_sin ar a) far)))"

definition updateStart_fp :: "arith \<Rightarrow> shape list \<Rightarrow> ident \<Rightarrow> nat \<Rightarrow> shape list" where
  "updateStart_fp ar shapes movedShapeId i =
     (let s = shapes ! i in
      case startBinding s of
        None \<Rightarrow> shapes
      | Some b \<Rightarrow>
          if shapeId b = movedShapeId then
            (case findShape shapes movedShapeId of
               Some target \<Rightarrow>
                 shapes[i := setPoint s 0 (getBoundaryPointFromAngle_fp ar target (angle b))]
             | None \<Rightarrow> shapes)
          else shapes)"

definition updateEnd_fp :: "arith \<Rightarrow> shape list \<Rightarrow> ident \<Rightarrow> nat \<Rightarrow> shape list" where
  "updateEnd_fp ar shapes movedShapeId i =
     (let s = shapes ! i in
      case endBinding s of
        None \<Rightarrow> shapes
      | Some b \<Rightarrow>
          if shapeId b = movedShapeId then
            (case findShape shapes movedShapeId of
               Some target \<Rightarrow>
                 shapes[i := setPoint s (lastIndex s)
                                (getBoundaryPointFromAngle_fp ar target (angle b))]
             | None \<Rightarrow> shapes)
          else shapes)"

definition updateAt_fp :: "arith \<Rightarrow> ident \<Rightarrow> shape list \<Rightarrow> nat \<Rightarrow> shape list" where
  "updateAt_fp ar movedShapeId shapes i =
     (if hasEndpoints (shapes ! i)
      then updateEnd_fp ar (updateStart_fp ar shapes movedShapeId i) movedShapeId i
      else shapes)"

definition updateBindings_fp :: "arith \<Rightarrow> shape list \<Rightarrow> ident \<Rightarrow> shape list" where
  "updateBindings_fp ar shapes movedShapeId =
     foldl (updateAt_fp ar movedShapeId) shapes [0..<length shapes]"

subsection \<open>history.js\<close>

text \<open>
  A heap of arrays. \<^verbatim>\<open>Utils.deepClone\<close> copies an array with all the objects it
  contains, so the content of one address is a whole list and a clone is a
  fresh address. The content of the clone is what the JSON round trip makes of
  each element; that function is the first argument \<open>js\<close> of \<open>deepClone\<close> and of
  the three operations of the history: \<^const>\<open>jsonRoundTrip\<close> for arrays of
  JavaScript values. The \<^verbatim>\<open>onChange\<close> callback only repaints two buttons and is
  left out.
\<close>

type_synonym addr = nat

record 'v world =
  heap :: "addr \<Rightarrow> 'v list"
  nextAddr :: addr
  undoStack :: "addr list"
  redoStack :: "addr list"

definition MAX_STACK :: nat where
  "MAX_STACK = 100"

definition allocArray :: "'v list \<Rightarrow> ('v, 'a) world_scheme \<Rightarrow> addr \<times> ('v, 'a) world_scheme" where
  "allocArray xs w =
     (nextAddr w, w\<lparr> heap := (heap w)(nextAddr w := xs), nextAddr := Suc (nextAddr w) \<rparr>)"

definition deepClone ::
  "('v \<Rightarrow> 'v) \<Rightarrow> addr \<Rightarrow> ('v, 'a) world_scheme \<Rightarrow> addr \<times> ('v, 'a) world_scheme" where
  "deepClone js a w = allocArray (map js (heap w a)) w"

definition push :: "('v \<Rightarrow> 'v) \<Rightarrow> addr \<Rightarrow> ('v, 'a) world_scheme \<Rightarrow> ('v, 'a) world_scheme" where
  "push js a w =
     (let (c, w1) = deepClone js a w;
          us = undoStack w1 @ [c];
          us' = (if length us > MAX_STACK then tl us else us)
      in w1\<lparr> undoStack := us', redoStack := [] \<rparr>)"

definition undo ::
  "('v \<Rightarrow> 'v) \<Rightarrow> addr \<Rightarrow> ('v, 'a) world_scheme \<Rightarrow> addr option \<times> ('v, 'a) world_scheme" where
  "undo js currentShapes w =
     (if undoStack w = [] then (None, w)
      else
        let (c, w1) = deepClone js currentShapes w;
            w2 = w1\<lparr> redoStack := redoStack w1 @ [c] \<rparr>;
            prev = last (undoStack w2)
        in (Some prev, w2\<lparr> undoStack := butlast (undoStack w2) \<rparr>))"

definition redo ::
  "('v \<Rightarrow> 'v) \<Rightarrow> addr \<Rightarrow> ('v, 'a) world_scheme \<Rightarrow> addr option \<times> ('v, 'a) world_scheme" where
  "redo js currentShapes w =
     (if redoStack w = [] then (None, w)
      else
        let (c, w1) = deepClone js currentShapes w;
            w2 = w1\<lparr> undoStack := undoStack w1 @ [c] \<rparr>;
            next = last (redoStack w2)
        in (Some next, w2\<lparr> redoStack := butlast (redoStack w2) \<rparr>))"

text \<open>An in-place mutation of the array at an address, by whoever holds a reference to it.\<close>

definition mutate :: "addr \<Rightarrow> 'v list \<Rightarrow> ('v, 'a) world_scheme \<Rightarrow> ('v, 'a) world_scheme" where
  "mutate a xs w = w\<lparr> heap := (heap w)(a := xs) \<rparr>"

subsection \<open>tools.js: the tool state\<close>

text \<open>
  The module variables of \<^verbatim>\<open>tools.js\<close>, on top of the heap and the history
  stacks. \<open>shapesRef\<close> is the variable \<^verbatim>\<open>shapes\<close>, a reference to the current
  array; \<open>curStrokeColor\<close> to \<open>curShapeFillStyle\<close> are the style variables
  \<^verbatim>\<open>strokeColor\<close> to \<^verbatim>\<open>shapeFillStyle\<close>. \<open>editingInShapeRef\<close> identifies the shape
  being text-edited by its id. \<open>inputValue\<close> is the value of the DOM text input
  and \<open>measureText\<close> the width the canvas context measures for a line of a
  text shape; both belong to the page, not to the module.
\<close>

record tools = "shape world" +
  currentTool :: string
  shapesRef :: addr
  selectedIds :: "ident set"
  isDragging :: bool
  dragType :: "string option"
  dragHandle :: "handle option"
  dragStartWorld :: "point option"
  drawingShape :: "shape option"
  dragOrigShapes :: "shape list option"
  selectionRect :: "bounds option"
  curStrokeColor :: string
  curFillColor :: string
  fillEnabled :: bool
  curStrokeWidth :: real
  curEdgeStyle :: string
  curStrokeDash :: string
  curShapeFillStyle :: string
  pendingShapeLabel :: "string option"
  editingTextShape :: "shape option"
  editingInShapeRef :: "ident option"
  inputValue :: string
  measureText :: "shape \<Rightarrow> string \<Rightarrow> real"

text \<open>
  In the tool state the arrays hold shape records. The numbers of a shape
  record are reals, every one of them finite, so the JSON round trip of a shape
  record has the same fields.
\<close>

definition jsonShape :: "shape \<Rightarrow> shape" where
  "jsonShape s = s"

text \<open>The current content of the shape array.\<close>

definition getShapes :: "tools \<Rightarrow> shape list" where
  "getShapes st = heap st (shapesRef st)"

text \<open>\<^verbatim>\<open>shapes.push(s)\<close>: the array is extended in place.\<close>

definition pushShape :: "shape \<Rightarrow> tools \<Rightarrow> tools" where
  "pushShape s st = mutate (shapesRef st) (heap st (shapesRef st) @ [s]) st"

subsection \<open>tools.js: text editing and tool change\<close>

text \<open>
  The characters that \<^verbatim>\<open>String.prototype.trim\<close> strips, as far as a character of
  eight bits can be one: space, tab, line feed, vertical tab, form feed,
  carriage return and the no-break space. The other Unicode spaces and line
  terminators have no counterpart in \<^typ>\<open>char\<close>.
\<close>

definition isWhitespace :: "char \<Rightarrow> bool" where
  "isWhitespace c \<longleftrightarrow>
     c \<in> set [CHR '' '', CHR 0x09, CHR 0x0A, CHR 0x0B, CHR 0x0C, CHR 0x0D, CHR 0xA0]"

text \<open>\<^verbatim>\<open>input.value.trim()\<close> is a non-empty string.\<close>

definition trimNonEmpty :: "string \<Rightarrow> bool" where
  "trimNonEmpty v \<longleftrightarrow> list_ex (\<lambda>c. \<not> isWhitespace c) v"

text \<open>\<^verbatim>\<open>text.split('\n')\<close>.\<close>

fun splitLines :: "string \<Rightarrow> string list" where
  "splitLines [] = [[]]"
| "splitLines (c # cs) =
     (if c = CHR 0x0A then [] # splitLines cs
      else (case splitLines cs of l # ls \<Rightarrow> (c # l) # ls | [] \<Rightarrow> [[c]]))"

text \<open>
  Assigning the \<^verbatim>\<open>text\<close> field of the shape being edited. The source holds a
  reference to the shape object; here the shape is found by its id, the ids of
  the shapes in the array being distinct.
\<close>

fun setTextOf :: "ident \<Rightarrow> string \<Rightarrow> shape list \<Rightarrow> shape list" where
  "setTextOf r v [] = []"
| "setTextOf r v (s # ss) = (if sid s = r then s\<lparr> stext := v \<rparr> # ss else s # setTextOf r v ss)"

definition finishShapeTextEditing :: "tools \<Rightarrow> tools" where
  "finishShapeTextEditing st =
     (case editingInShapeRef st of
        None \<Rightarrow> st
      | Some r \<Rightarrow>
          let st1 = push jsonShape (shapesRef st) st;
              st2 = mutate (shapesRef st1) (setTextOf r (inputValue st1) (heap st1 (shapesRef st1))) st1
          in st2\<lparr> editingInShapeRef := None, inputValue := [] \<rparr>)"

text \<open>
  \<^verbatim>\<open>finishTextEditing\<close> ends with \<^verbatim>\<open>setTool('select')\<close>, which calls
  \<^verbatim>\<open>finishTextEditing\<close> again; by then both editing references are \<^verbatim>\<open>null\<close>,
  the nested call returns at once, and \<^verbatim>\<open>setTool\<close> only sets the current tool.
\<close>

definition finishTextEditing :: "tools \<Rightarrow> tools" where
  "finishTextEditing st =
     (if editingInShapeRef st \<noteq> None then finishShapeTextEditing st
      else
        case editingTextShape st of
          None \<Rightarrow> st
        | Some ts \<Rightarrow>
            let st1 =
                 (if trimNonEmpty (inputValue st) then
                    let ts1 = ts\<lparr> stext := inputValue st \<rparr>;
                        ls = splitLines (stext ts1);
                        maxW = fold (\<lambda>l m. max m (measureText st ts1 l)) ls 0;
                        ts2 = ts1\<lparr> width := maxW + 8,
                                   height := real (length ls) * fontSize ts1 * 1.4 \<rparr>
                    in pushShape ts2 (push jsonShape (shapesRef st) st)
                  else st)
            in st1\<lparr> editingTextShape := None, inputValue := [], currentTool := ''select'' \<rparr>)"

definition setTool :: "string \<Rightarrow> tools \<Rightarrow> tools" where
  "setTool tool st =
     (let st1 = finishTextEditing st;
          st2 = st1\<lparr> currentTool := tool \<rparr>
      in if tool \<noteq> ''select'' then st2\<lparr> selectedIds := {} \<rparr> else st2)"

subsection \<open>tools.js: drawing\<close>

text \<open>The \<^verbatim>\<open>case\<close> labels of the box-shaped tools in \<^verbatim>\<open>onPointerDown\<close> and \<^verbatim>\<open>handleDrawMove\<close>.\<close>

definition boxCases :: "string list" where
  "boxCases =
    [''rectangle'', ''ellipse'', ''diamond'', ''database'', ''queue'', ''cache'', ''server'',
     ''cloud'', ''firewall'', ''loadbalancer'', ''apigateway'', ''cdn'', ''user'',
     ''microservice'', ''pubsub'', ''storage'', ''function'', ''container'', ''eventbus'',
     ''browser'', ''mobile'', ''monitor'', ''notification'', ''auth'', ''externalapi'',
     ''scheduler'', ''logger'', ''search'', ''datawarehouse'']"

text \<open>
  \<^verbatim>\<open>onPointerDown\<close> with the left button at a world position, for the drawing
  tools. The fresh id and seed of the new shape are parameters. The \<^verbatim>\<open>select\<close>
  and \<^verbatim>\<open>text\<close> tools (hit testing, the DOM text input) are not modelled: \<open>None\<close>.
\<close>

definition onPointerDown :: "ident \<Rightarrow> int \<Rightarrow> point \<Rightarrow> tools \<Rightarrow> tools option" where
  "onPointerDown newId newSeed world st =
     (let st0 = st\<lparr> dragStartWorld := Some world \<rparr>;
          tool = currentTool st0
      in if tool = ''select'' \<or> tool = ''text'' then None
         else if tool \<in> set boxCases then
           Some (st0\<lparr> drawingShape := Some ((create newId newSeed tool)
                         \<lparr> sx := pt_x world, sy := pt_y world, width := 0, height := 0,
                           strokeColor := curStrokeColor st0,
                           fillColor := (if fillEnabled st0 then curFillColor st0 else ''transparent''),
                           strokeWidth := curStrokeWidth st0, edgeStyle := curEdgeStyle st0,
                           strokeDash := curStrokeDash st0,
                           shapeFillStyle := curShapeFillStyle st0 \<rparr>),
                      isDragging := True, dragType := Some ''draw'' \<rparr>)
         else if tool = ''line'' \<or> tool = ''arrow'' then
           (let startSnap = findNearestBoundaryPoint (getShapes st0) (pt_x world) (pt_y world) [];
                startPt = (case startSnap of
                             Some sn \<Rightarrow> \<lparr> pt_x = snapX sn, pt_y = snapY sn \<rparr>
                           | None \<Rightarrow> \<lparr> pt_x = pt_x world, pt_y = pt_y world \<rparr>);
                startB = (case startSnap of
                            Some sn \<Rightarrow> Some \<lparr> shapeId = snapShapeId sn, angle = snapAngle sn \<rparr>
                          | None \<Rightarrow> None)
            in Some (st0\<lparr> drawingShape := Some ((create newId newSeed tool)
                            \<lparr> points := Some [startPt, startPt],
                              strokeColor := curStrokeColor st0,
                              strokeWidth := curStrokeWidth st0,
                              strokeDash := curStrokeDash st0,
                              arrowHead := (tool = ''arrow''),
                              startBinding := startB \<rparr>),
                         isDragging := True, dragType := Some ''draw'' \<rparr>))
         else if tool = ''freehand'' then
           Some (st0\<lparr> drawingShape := Some ((create newId newSeed ''freehand'')
                         \<lparr> points := Some [\<lparr> pt_x = pt_x world, pt_y = pt_y world \<rparr>],
                           strokeColor := curStrokeColor st0,
                           strokeWidth := curStrokeWidth st0,
                           strokeDash := curStrokeDash st0 \<rparr>),
                      isDragging := True, dragType := Some ''draw'' \<rparr>)
         else Some st0)"

text \<open>\<^verbatim>\<open>drawingShape.points[1] = p\<close>.\<close>

definition setSecondPoint :: "shape \<Rightarrow> point \<Rightarrow> error + shape" where
  "setSecondPoint d p =
     (case points d of
        None \<Rightarrow> Inl TypeError
      | Some ps \<Rightarrow>
          if 2 \<le> length ps then Inr (d\<lparr> points := Some (ps[1 := p]) \<rparr>)
          else if length ps = 1 then Inr (d\<lparr> points := Some (ps @ [p]) \<rparr>)
          else Inl SparseArray)"

text \<open>\<^verbatim>\<open>handleDrawMove\<close>; the rendering of the shape in progress is left out.\<close>

definition handleDrawMove :: "point \<Rightarrow> tools \<Rightarrow> error + tools" where
  "handleDrawMove world st =
     (case drawingShape st of
        None \<Rightarrow> Inr st
      | Some d \<Rightarrow>
          if stype d \<in> set boxCases then
            (case dragStartWorld st of
               None \<Rightarrow> Inl TypeError
             | Some start \<Rightarrow>
                 (case normalizeBounds (pt_x start) (pt_y start) (pt_x world) (pt_y world) of
                    (bx, by, bw, bh) \<Rightarrow>
                      Inr (st\<lparr> drawingShape :=
                                 Some (d\<lparr> sx := bx, sy := by, width := bw, height := bh \<rparr>) \<rparr>)))
          else if stype d = ''line'' \<or> stype d = ''arrow'' then
            (let endSnap = findNearestBoundaryPoint (getShapes st) (pt_x world) (pt_y world)
                             (case startBinding d of Some b \<Rightarrow> [shapeId b] | None \<Rightarrow> []);
                 p = (case endSnap of
                        Some sn \<Rightarrow> \<lparr> pt_x = snapX sn, pt_y = snapY sn \<rparr>
                      | None \<Rightarrow> \<lparr> pt_x = pt_x world, pt_y = pt_y world \<rparr>)
             in case setSecondPoint d p of
                  Inl e \<Rightarrow> Inl e
                | Inr d1 \<Rightarrow> Inr (st\<lparr> drawingShape := Some (d1\<lparr> hoverSnap := endSnap \<rparr>) \<rparr>))
          else if stype d = ''freehand'' then
            (case points d of
               None \<Rightarrow> Inl TypeError
             | Some ps \<Rightarrow>
                 Inr (st\<lparr> drawingShape :=
                            Some (d\<lparr> points := Some (ps @ [\<lparr> pt_x = pt_x world, pt_y = pt_y world \<rparr>]) \<rparr>) \<rparr>))
          else Inr st)"

text \<open>
  The test of \<^verbatim>\<open>finishDraw\<close> that rejects tiny shapes. Reading \<^verbatim>\<open>points[0]\<close> or
  \<^verbatim>\<open>points[1]\<close> of a connector with fewer than two points throws.
\<close>

definition tooSmall :: "shape \<Rightarrow> error + bool" where
  "tooSmall d =
     (if stype d \<in> set CONTAINER_TYPES then Inr (width d < 5 \<and> height d < 5)
      else if (stype d = ''line'' \<or> stype d = ''arrow'') \<and> points d \<noteq> None then
        (case points d of
           Some (p0 # p1 # rest) \<Rightarrow> Inr (distance (pt_x p0) (pt_y p0) (pt_x p1) (pt_y p1) < 5)
         | _ \<Rightarrow> Inl TypeError)
      else if stype d = ''freehand'' \<and> points d \<noteq> None then
        (case points d of Some ps \<Rightarrow> Inr (length ps < 3) | None \<Rightarrow> Inr False)
      else Inr False)"

text \<open>What \<^verbatim>\<open>finishDraw\<close> does to a shape it keeps, before the shape joins the list.\<close>

definition finalizeShape :: "string option \<Rightarrow> shape \<Rightarrow> shape" where
  "finalizeShape pendingLabel d =
     (let d1 = (if stype d = ''line'' \<or> stype d = ''arrow'' then
                  (case hoverSnap d of
                     Some sn \<Rightarrow> d\<lparr> endBinding := Some \<lparr> shapeId = snapShapeId sn, angle = snapAngle sn \<rparr> \<rparr>
                   | None \<Rightarrow> d)
                else d);
          d2 = d1\<lparr> hoverSnap := None \<rparr>
      in case pendingLabel of
           Some l \<Rightarrow> if l \<noteq> [] \<and> stype d2 \<in> set CONTAINER_TYPES then d2\<lparr> stext := l \<rparr> else d2
         | None \<Rightarrow> d2)"

definition finishDraw :: "point \<Rightarrow> tools \<Rightarrow> error + tools" where
  "finishDraw world st =
     (case drawingShape st of
        None \<Rightarrow> Inr st
      | Some d \<Rightarrow>
          (case tooSmall d of
             Inl e \<Rightarrow> Inl e
           | Inr small \<Rightarrow>
               if \<not> small then
                 (let d' = finalizeShape (pendingShapeLabel st) d;
                      st1 = push jsonShape (shapesRef st) (st\<lparr> drawingShape := Some d' \<rparr>);
                      st2 = pushShape d' st1;
                      st3 = st2\<lparr> selectedIds := {sid d'} \<rparr>
                  in Inr (setTool ''select'' st3))
               else Inr (setTool ''select'' st)))"

text \<open>\<^verbatim>\<open>onPointerUp\<close> in the \<^verbatim>\<open>draw\<close> drag-substate.\<close>

definition onPointerUpDraw :: "point \<Rightarrow> tools \<Rightarrow> error + tools" where
  "onPointerUpDraw world st =
     (if \<not> isDragging st then Inr st
      else case finishDraw world st of
             Inl e \<Rightarrow> Inl e
           | Inr st1 \<Rightarrow>
               Inr (st1\<lparr> isDragging := False, dragType := None, dragHandle := None,
                          drawingShape := None, dragOrigShapes := None,
                          selectionRect := None \<rparr>))"

subsection \<open>tools.js: deletion\<close>

text \<open>The body of the loop of \<^verbatim>\<open>deleteSelected\<close>.\<close>

definition clearDeleted :: "ident set \<Rightarrow> shape \<Rightarrow> shape" where
  "clearDeleted deletedIds s =
     (if sid s \<in> deletedIds then s
      else
        let s1 = (case startBinding s of
                    Some b \<Rightarrow> if shapeId b \<in> deletedIds then s\<lparr> startBinding := None \<rparr> else s
                  | None \<Rightarrow> s)
        in (case endBinding s1 of
              Some b \<Rightarrow> if shapeId b \<in> deletedIds then s1\<lparr> endBinding := None \<rparr> else s1
            | None \<Rightarrow> s1))"

text \<open>
  \<^verbatim>\<open>deleteSelected\<close>: the loop mutates the shapes of the current array, then
  \<^verbatim>\<open>filter\<close> builds a new array, which \<^verbatim>\<open>shapes\<close> refers to from then on.
\<close>

definition deleteSelected :: "tools \<Rightarrow> tools" where
  "deleteSelected st =
     (if selectedIds st = {} then st
      else
        let st1 = push jsonShape (shapesRef st) st;
            deletedIds = selectedIds st1;
            st2 = mutate (shapesRef st1) (map (clearDeleted deletedIds) (heap st1 (shapesRef st1))) st1;
            (a, st3) = allocArray (filter (\<lambda>s. sid s \<notin> selectedIds st2) (heap st2 (shapesRef st2))) st2
        in st3\<lparr> shapesRef := a, selectedIds := {} \<rparr>)"

subsection \<open>Notions used in the statements\<close>

text \<open>
  A value that JSON can hold as it is: no \<^verbatim>\<open>undefined\<close>, no \<^verbatim>\<open>NaN\<close> and no
  infinity anywhere in it.
\<close>

fun jsonSafe :: "json \<Rightarrow> bool" where
  "jsonSafe JUndefined = False"
| "jsonSafe JNull = True"
| "jsonSafe (JBool b) = True"
| "jsonSafe (JNumber n) = (case n of Finite r \<Rightarrow> True | _ \<Rightarrow> False)"
| "jsonSafe (JString s) = True"
| "jsonSafe (JArray vs) = list_all jsonSafe vs"
| "jsonSafe (JObject kvs) = list_all (\<lambda>kv. jsonSafe (snd kv)) kvs"

text \<open>A shape with its point list and its two bindings blanked: all its other fields.\<close>

definition otherFields :: "shape \<Rightarrow> shape" where
  "otherFields s = s\<lparr> points := None, startBinding := None, endBinding := None \<rparr>"

text \<open>
  \<open>sameButEndpoints s s'\<close>: \<open>s'\<close> is \<open>s\<close> except, when \<open>s\<close> is a line or arrow with at
  least two points, for its two bindings and the first and last entry of its
  point list.
\<close>

definition sameButEndpoints :: "shape \<Rightarrow> shape \<Rightarrow> bool" where
  "sameButEndpoints s s' \<longleftrightarrow>
     otherFields s' = otherFields s \<and>
     (\<not> hasEndpoints s \<longrightarrow> s' = s) \<and>
     (case points s of
        None \<Rightarrow> points s' = None
      | Some ps \<Rightarrow>
          (\<exists>ps'. points s' = Some ps' \<and> length ps' = length ps \<and>
                 (\<forall>k. 0 < k \<and> k < length ps - 1 \<longrightarrow> ps' ! k = ps ! k)))"

text \<open>A binding survives if its target id is among the given ids, and is cleared otherwise.\<close>

definition keepLive :: "ident set \<Rightarrow> binding option \<Rightarrow> binding option" where
  "keepLive ids bo = (case bo of Some b \<Rightarrow> if shapeId b \<in> ids then Some b else None | None \<Rightarrow> None)"

text \<open>
  What one iteration of \<^verbatim>\<open>resolveAllBindings\<close> does to a shape when every target is
  looked up with \<open>look\<close>.
\<close>

definition resolveShape :: "(ident \<Rightarrow> shape option) \<Rightarrow> shape \<Rightarrow> shape" where
  "resolveShape look s =
     (if hasEndpoints s then
        let s1 = (case startBinding s of
                    None \<Rightarrow> s
                  | Some b \<Rightarrow>
                      (case look (shapeId b) of
                         Some t \<Rightarrow> setPoint s 0 (getBoundaryPointFromAngle t (angle b))
                       | None \<Rightarrow> s\<lparr> startBinding := None \<rparr>))
        in (case endBinding s1 of
              None \<Rightarrow> s1
            | Some b \<Rightarrow>
                (case look (shapeId b) of
                   Some t \<Rightarrow> setPoint s1 (lastIndex s1) (getBoundaryPointFromAngle t (angle b))
                 | None \<Rightarrow> s1\<lparr> endBinding := None \<rparr>))
      else s)"

text \<open>A binding that does not resolve to a line or arrow with two or more points.\<close>

definition freeTarget :: "shape list \<Rightarrow> binding option \<Rightarrow> bool" where
  "freeTarget xs bo =
     (case bo of
        None \<Rightarrow> True
      | Some b \<Rightarrow> (case findShape xs (shapeId b) of None \<Rightarrow> True | Some t \<Rightarrow> \<not> hasEndpoints t))"

text \<open>No binding of a line or arrow with two or more points resolves to such a shape.\<close>

definition bindingsAvoidConnectors :: "shape list \<Rightarrow> bool" where
  "bindingsAvoidConnectors xs \<longleftrightarrow>
     list_all (\<lambda>s. hasEndpoints s \<longrightarrow> freeTarget xs (startBinding s) \<and> freeTarget xs (endBinding s)) xs"

text \<open>The two bindings are the same before and after.\<close>

definition bindingsKept :: "shape \<Rightarrow> shape \<Rightarrow> bool" where
  "bindingsKept s s' \<longleftrightarrow> startBinding s' = startBinding s \<and> endBinding s' = endBinding s"

text \<open>
  A draw gesture: the pointer goes down at \<open>p\<close>, moves to \<open>q\<close> and goes up there.
\<close>

definition drawGesture :: "ident \<Rightarrow> int \<Rightarrow> point \<Rightarrow> point \<Rightarrow> tools \<Rightarrow> error + tools" where
  "drawGesture newId newSeed p q st =
     (case onPointerDown newId newSeed p st of
        None \<Rightarrow> Inr st
      | Some st1 \<Rightarrow>
          (case handleDrawMove q st1 of
             Inl e \<Rightarrow> Inl e
           | Inr st2 \<Rightarrow> onPointerUpDraw q st2))"





subsection \<open>Example data\<close>

text \<open>Two rectangles, as they are after being drawn: A with box (0, 0, 100, 100), B with box (300, 0, 100, 100).\<close>

definition rectA :: shape where
  "rectA = (create ''A'' 1 ''rectangle'')\<lparr> sx := 0, sy := 0, width := 100, height := 100 \<rparr>"

definition rectB :: shape where
  "rectB = (create ''B'' 2 ''rectangle'')\<lparr> sx := 300, sy := 0, width := 100, height := 100 \<rparr>"

text \<open>
  Shape objects as JavaScript values, with the properties the examples need:
  a rectangle from (0, 0) to (50, 0), a rectangle of 50 by 40, an arrow from
  a start point given by its two coordinates to (300, 50), its start bound to
  the rectangle at angle 0; the propagation computes \<^verbatim>\<open>0 / 0\<close>, which is \<open>NaN\<close>,
  for both coordinates when the rectangle has no height.
\<close>

definition flatRectJ :: json where
  "flatRectJ = JObject [(''id'', JString ''A''), (''type'', JString ''rectangle''),
     (''x'', JNumber (Finite 0)), (''y'', JNumber (Finite 0)),
     (''width'', JNumber (Finite 50)), (''height'', JNumber (Finite 0)), (''points'', JNull)]"

definition rectJ :: json where
  "rectJ = JObject [(''id'', JString ''A''), (''type'', JString ''rectangle''),
     (''x'', JNumber (Finite 0)), (''y'', JNumber (Finite 0)),
     (''width'', JNumber (Finite 50)), (''height'', JNumber (Finite 40)), (''points'', JNull)]"

definition arrowJ :: "json \<Rightarrow> json \<Rightarrow> json" where
  "arrowJ x0 y0 = JObject [(''id'', JString ''C''), (''type'', JString ''arrow''),
     (''x'', JNumber (Finite 0)), (''y'', JNumber (Finite 0)),
     (''width'', JNumber (Finite 0)), (''height'', JNumber (Finite 0)),
     (''points'', JArray [JObject [(''x'', x0), (''y'', y0)],
                          JObject [(''x'', JNumber (Finite 300)), (''y'', JNumber (Finite 50))]]),
     (''startBinding'', JObject [(''shapeId'', JString ''A''), (''angle'', JNumber (Finite 0))]),
     (''endBinding'', JNull)]"

text \<open>A world with three arrays: the current one, one on the undo stack, one on the redo stack.\<close>

definition exampleWorld :: "json world" where
  "exampleWorld =
     \<lparr> heap = (\<lambda>_. [])(0 := [rectJ, arrowJ (JNumber (Finite 50)) (JNumber (Finite 20))], 1 := [rectJ], 2 := []),
       nextAddr = 3, undoStack = [1], redoStack = [2] \<rparr>"

text \<open>
  A world whose current array (address 0) holds the arrow with the \<^verbatim>\<open>NaN\<close> start
  point, after one earlier snapshot (address 1) was pushed.
\<close>

definition nanWorld :: "json world" where
  "nanWorld =
     \<lparr> heap = (\<lambda>_. [])(0 := [flatRectJ, arrowJ (JNumber NaN) (JNumber NaN)], 1 := [flatRectJ]),
       nextAddr = 2, undoStack = [1], redoStack = [] \<rparr>"

text \<open>
  An arrow from A's right edge to B's left edge, bound to both, with the stroke
  width of the tool state at load time.
\<close>

definition arrowAB :: shape where
  "arrowAB = (create ''C'' 3 ''arrow'')
     \<lparr> points := Some [\<lparr> pt_x = 100, pt_y = 50 \<rparr>, \<lparr> pt_x = 300, pt_y = 50 \<rparr>],
       strokeWidth := 0.5,
       startBinding := Some \<lparr> shapeId = ''A'', angle = 0 \<rparr>,
       endBinding := Some \<lparr> shapeId = ''B'', angle = pi \<rparr> \<rparr>"

text \<open>An arrow whose start is bound to the arrow itself, as an imported document may hold.\<close>

definition selfArrow :: shape where
  "selfArrow = (create ''S'' 4 ''arrow'')
     \<lparr> points := Some [\<lparr> pt_x = 0, pt_y = 0 \<rparr>, \<lparr> pt_x = 10, pt_y = 10 \<rparr>],
       startBinding := Some \<lparr> shapeId = ''S'', angle = pi \<rparr> \<rparr>"

text \<open>An arrow with a single point whose start binding names a shape that does not exist.\<close>

definition danglingArrow :: shape where
  "danglingArrow = (create ''D'' 5 ''arrow'')
     \<lparr> points := Some [\<lparr> pt_x = 0, pt_y = 0 \<rparr>],
       startBinding := Some \<lparr> shapeId = ''gone'', angle = 0 \<rparr> \<rparr>"

text \<open>
  The tool state when the module is loaded: the variable initialisers of
  \<^verbatim>\<open>tools.js\<close>, with the empty shape array at address 0 and a text measure
  that stands for the page's canvas.
\<close>

definition initialTools :: tools where
  "initialTools =
     \<lparr> heap = (\<lambda>_. []), nextAddr = 1, undoStack = [], redoStack = [],
       currentTool = ''select'', shapesRef = 0, selectedIds = {},
       isDragging = False, dragType = None, dragHandle = None, dragStartWorld = None,
       drawingShape = None, dragOrigShapes = None, selectionRect = None,
       curStrokeColor = ''#1e1e1e'', curFillColor = ''#ffffff'', fillEnabled = False,
       curStrokeWidth = 0.5, curEdgeStyle = ''sharp'', curStrokeDash = ''solid'',
       curShapeFillStyle = ''none'', pendingShapeLabel = None,
       editingTextShape = None, editingInShapeRef = None, inputValue = [],
       measureText = (\<lambda>_ l. 8 * real (length l)) \<rparr>"

text \<open>The editor holding A, B and the arrow between them, with A selected.\<close>

definition toolsABselected :: tools where
  "toolsABselected = (mutate 0 [rectA, rectB, arrowAB] initialTools)\<lparr> selectedIds := {''A''} \<rparr>"

text \<open>An ellipse twice as wide as high, with box (0, 0, 4, 2).\<close>

definition ellipseE :: shape where
  "ellipseE = (create ''E'' 6 ''ellipse'')\<lparr> sx := 0, sy := 0, width := 4, height := 2 \<rparr>"


text \<open>
  A rectangle with box (0, 0, 10, 10) and an arrow that starts on its right
  edge, bound to it at angle 0.
\<close>

definition rectR :: shape where
  "rectR = (create ''R'' 9 ''rectangle'')\<lparr> sx := 0, sy := 0, width := 10, height := 10 \<rparr>"

definition arrowR :: shape where
  "arrowR = (create ''L'' 10 ''arrow'')
     \<lparr> points := Some [\<lparr> pt_x = 10, pt_y = 5 \<rparr>, \<lparr> pt_x = 30, pt_y = 5 \<rparr>],
       startBinding := Some \<lparr> shapeId = ''R'', angle = 0 \<rparr> \<rparr>"

text \<open>The editor holding A and B, with the arrow tool chosen.\<close>

definition toolsAB :: tools where
  "toolsAB = (mutate 0 [rectA, rectB] initialTools)\<lparr> currentTool := ''arrow'' \<rparr>"


section \<open>Theorems\<close>

lemma enforceMinSize_width: "10 \<le> width (enforceMinSize s)"
  by (simp add: enforceMinSize_def Let_def)

lemma enforceMinSize_height: "10 \<le> height (enforceMinSize s)"
  by (simp add: enforceMinSize_def Let_def)

text \<open>
  C8. After a resize with any of the eight compass handles, whatever the shape
  and the delta, the call succeeds and the shape's width and height are both
  at least 10.
\<close>

theorem resize_min_size:
  assumes "h \<in> set compassHandles"
  shows "\<exists>s'. resize s h dx dy = Inr s' \<and> 10 \<le> width s' \<and> 10 \<le> height s'"
  using assms
  by (auto simp: compassHandles_def enforceMinSize_width enforceMinSize_height)

theorem resize_min_size_witness:
  "Hnw \<in> set compassHandles \<and>
   (\<exists>s'. resize (create ''a'' 1 ''rectangle'') Hnw 3 4 = Inr s' \<and> 10 \<le> width s' \<and> 10 \<le> height s')"
  using resize_min_size [of Hnw "create ''a'' 1 ''rectangle''" 3 4]
  by (simp add: compassHandles_def)

subsection \<open>History: undo, redo and copies\<close>

lemma map_jsonShape [simp]: "map jsonShape xs = xs"
  by (simp add: jsonShape_def map_idI)

lemma push_undoStack_nonempty: "undoStack (push js a w) \<noteq> []"
  by (cases "undoStack w") (auto simp: push_def deepClone_def allocArray_def Let_def MAX_STACK_def)

lemma push_undoStack_last: "last (undoStack (push js a w)) = nextAddr w"
  by (cases "undoStack w") (auto simp: push_def deepClone_def allocArray_def Let_def MAX_STACK_def)

lemma push_heap: "heap (push js a w) = (heap w)(nextAddr w := map js (heap w a))"
  by (simp add: push_def deepClone_def allocArray_def Let_def)

lemma push_nextAddr: "nextAddr (push js a w) = Suc (nextAddr w)"
  by (simp add: push_def deepClone_def allocArray_def Let_def)

lemma push_redoStack: "redoStack (push js a w) = []"
  by (simp add: push_def deepClone_def allocArray_def Let_def)

lemma push_stores_copy:
  "a < nextAddr w \<Longrightarrow>
   (case undo js c (mutate a xs (push js a w)) of
      (r, w') \<Rightarrow> \<exists>n. r = Some n \<and> heap w' n = map js (heap w a))"
  using push_undoStack_nonempty[of js a w] push_undoStack_last[of js a w]
  by (simp add: undo_def mutate_def deepClone_def allocArray_def Let_def push_heap push_nextAddr)

lemma undo_stores_copy:
  "a < nextAddr w \<Longrightarrow> undoStack w \<noteq> [] \<Longrightarrow>
   (case redo js c (mutate a xs (snd (undo js a w))) of
      (r, w') \<Rightarrow> \<exists>n. r = Some n \<and> heap w' n = map js (heap w a))"
  by (simp add: undo_def redo_def mutate_def deepClone_def allocArray_def Let_def)

lemma redo_stores_copy:
  "a < nextAddr w \<Longrightarrow> redoStack w \<noteq> [] \<Longrightarrow>
   (case undo js c (mutate a xs (snd (redo js a w))) of
      (r, w') \<Rightarrow> \<exists>n. r = Some n \<and> heap w' n = map js (heap w a))"
  by (simp add: undo_def redo_def mutate_def deepClone_def allocArray_def Let_def)

lemma jsonSafe_roundTrip: "jsonSafe v \<Longrightarrow> jsonRoundTrip v = v"
proof (induction v)
  case (JArray vs)
  then show ?case by (simp add: list_all_iff map_idI)
next
  case (JObject kvs)
  have "\<And>kv. kv \<in> set kvs \<Longrightarrow> snd kv \<noteq> JUndefined \<and> jsonRoundTrip (snd kv) = snd kv"
  proof -
    fix kv assume m: "kv \<in> set kvs"
    then have s: "jsonSafe (snd kv)" using JObject.prems by (simp add: list_all_iff)
    have "snd kv \<in> Basic_BNFs.snds kv" by (cases kv) (simp add: snds.simps)
    then have "jsonRoundTrip (snd kv) = snd kv" using JObject.IH m s by blast
    moreover have "snd kv \<noteq> JUndefined" using s by auto
    ultimately show "snd kv \<noteq> JUndefined \<and> jsonRoundTrip (snd kv) = snd kv" by simp
  qed
  then show ?case by (simp add: map_idI filter_id_conv)
qed (simp_all split: number.splits)

lemma jsonSafe_list: "list_all jsonSafe vs \<Longrightarrow> map jsonRoundTrip vs = vs"
  by (simp add: list_all_iff map_idI jsonSafe_roundTrip)

text \<open>
  C10 as stated fails. The current array holds an arrow whose start point is
  \<open>(NaN, NaN)\<close>: \<open>undo\<close> returns the earlier snapshot, \<open>redo\<close> on it returns the
  array that \<open>undo\<close> cloned, and in that clone the two coordinates are \<^verbatim>\<open>null\<close>.
\<close>

theorem history_nan_counterexample:
  "fst (undo jsonRoundTrip 0 nanWorld) = Some 1 \<and>
   fst (redo jsonRoundTrip 1 (snd (undo jsonRoundTrip 0 nanWorld))) = Some 2 \<and>
   heap nanWorld 0 = [flatRectJ, arrowJ (JNumber NaN) (JNumber NaN)] \<and>
   heap (snd (redo jsonRoundTrip 1 (snd (undo jsonRoundTrip 0 nanWorld)))) 2 =
     [flatRectJ, arrowJ JNull JNull] \<and>
   arrowJ JNull JNull \<noteq> arrowJ (JNumber NaN) (JNumber NaN)"
  by (simp add: nanWorld_def undo_def redo_def deepClone_def allocArray_def Let_def
      flatRectJ_def arrowJ_def)

text \<open>
  C10, amended. When \<open>undo cur\<close> returns a list (the undo stack is not empty),
  \<open>redo\<close> on the returned list returns a list whose content is the JSON round
  trip of the content of \<open>cur\<close>, and the same with \<open>undo\<close> and \<open>redo\<close> exchanged;
  that content is the content of \<open>cur\<close> itself when every value in \<open>cur\<close> is
  \<open>jsonSafe\<close>. What \<open>push\<close>, \<open>undo\<close> and \<open>redo\<close> store is a copy: after any in-place
  mutation \<open>xs\<close> of the array \<open>a\<close> that was passed to them, the next \<open>undo\<close> (after
  \<open>push\<close> or \<open>redo\<close>) or \<open>redo\<close> (after \<open>undo\<close>) still returns a list with the round
  trip of the content \<open>a\<close> had when it was passed. An array that exists has an
  address below \<open>nextAddr\<close>.
\<close>

theorem history_json_roundtrip:
  "(undoStack w \<noteq> [] \<longrightarrow>
      (case undo jsonRoundTrip cur w of (r, w1) \<Rightarrow> \<exists>p. r = Some p \<and>
         (case redo jsonRoundTrip p w1 of (r2, w2) \<Rightarrow> \<exists>n. r2 = Some n \<and>
            heap w2 n = map jsonRoundTrip (heap w cur) \<and>
            (list_all jsonSafe (heap w cur) \<longrightarrow> heap w2 n = heap w cur)))) \<and>
   (redoStack w \<noteq> [] \<longrightarrow>
      (case redo jsonRoundTrip cur w of (r, w1) \<Rightarrow> \<exists>p. r = Some p \<and>
         (case undo jsonRoundTrip p w1 of (r2, w2) \<Rightarrow> \<exists>n. r2 = Some n \<and>
            heap w2 n = map jsonRoundTrip (heap w cur) \<and>
            (list_all jsonSafe (heap w cur) \<longrightarrow> heap w2 n = heap w cur)))) \<and>
   (a < nextAddr w \<longrightarrow>
      (\<forall>xs c. case undo jsonRoundTrip c (mutate a xs (push jsonRoundTrip a w)) of
                 (r, w') \<Rightarrow> \<exists>n. r = Some n \<and> heap w' n = map jsonRoundTrip (heap w a))) \<and>
   (a < nextAddr w \<and> undoStack w \<noteq> [] \<longrightarrow>
      (\<forall>xs c. case redo jsonRoundTrip c (mutate a xs (snd (undo jsonRoundTrip a w))) of
                 (r, w') \<Rightarrow> \<exists>n. r = Some n \<and> heap w' n = map jsonRoundTrip (heap w a))) \<and>
   (a < nextAddr w \<and> redoStack w \<noteq> [] \<longrightarrow>
      (\<forall>xs c. case undo jsonRoundTrip c (mutate a xs (snd (redo jsonRoundTrip a w))) of
                 (r, w') \<Rightarrow> \<exists>n. r = Some n \<and> heap w' n = map jsonRoundTrip (heap w a)))"
proof -
  have s: "list_all jsonSafe (heap w cur) \<Longrightarrow> map jsonRoundTrip (heap w cur) = heap w cur"
    by (rule jsonSafe_list)
  have 1: "undoStack w \<noteq> [] \<Longrightarrow>
      (case undo jsonRoundTrip cur w of (r, w1) \<Rightarrow> \<exists>p. r = Some p \<and>
         (case redo jsonRoundTrip p w1 of (r2, w2) \<Rightarrow> \<exists>n. r2 = Some n \<and>
            heap w2 n = map jsonRoundTrip (heap w cur) \<and>
            (list_all jsonSafe (heap w cur) \<longrightarrow> heap w2 n = heap w cur)))"
    using s by (simp add: undo_def redo_def deepClone_def allocArray_def Let_def)
  have 2: "redoStack w \<noteq> [] \<Longrightarrow>
      (case redo jsonRoundTrip cur w of (r, w1) \<Rightarrow> \<exists>p. r = Some p \<and>
         (case undo jsonRoundTrip p w1 of (r2, w2) \<Rightarrow> \<exists>n. r2 = Some n \<and>
            heap w2 n = map jsonRoundTrip (heap w cur) \<and>
            (list_all jsonSafe (heap w cur) \<longrightarrow> heap w2 n = heap w cur)))"
    using s by (simp add: undo_def redo_def deepClone_def allocArray_def Let_def)
  show ?thesis
    using 1 2 push_stores_copy[of a w jsonRoundTrip] undo_stores_copy[of a w jsonRoundTrip]
      redo_stores_copy[of a w jsonRoundTrip]
    by simp
qed

theorem history_json_roundtrip_witness:
  "undoStack exampleWorld \<noteq> [] \<and> redoStack exampleWorld \<noteq> [] \<and> 0 < nextAddr exampleWorld \<and>
   list_all jsonSafe (heap exampleWorld 0) \<and>
   (case undo jsonRoundTrip 0 exampleWorld of (r, w1) \<Rightarrow> \<exists>p. r = Some p \<and>
      (case redo jsonRoundTrip p w1 of (r2, w2) \<Rightarrow> \<exists>n. r2 = Some n \<and> heap w2 n = heap exampleWorld 0)) \<and>
   (case redo jsonRoundTrip 0 exampleWorld of (r, w1) \<Rightarrow> \<exists>p. r = Some p \<and>
      (case undo jsonRoundTrip p w1 of (r2, w2) \<Rightarrow> \<exists>n. r2 = Some n \<and> heap w2 n = heap exampleWorld 0)) \<and>
   (\<forall>xs c. case undo jsonRoundTrip c (mutate 0 xs (push jsonRoundTrip 0 exampleWorld)) of
              (r, w') \<Rightarrow> \<exists>n. r = Some n \<and> heap w' n = heap exampleWorld 0) \<and>
   (\<forall>xs c. case redo jsonRoundTrip c (mutate 0 xs (snd (undo jsonRoundTrip 0 exampleWorld))) of
              (r, w') \<Rightarrow> \<exists>n. r = Some n \<and> heap w' n = heap exampleWorld 0) \<and>
   (\<forall>xs c. case undo jsonRoundTrip c (mutate 0 xs (snd (redo jsonRoundTrip 0 exampleWorld))) of
              (r, w') \<Rightarrow> \<exists>n. r = Some n \<and> heap w' n = heap exampleWorld 0)"
proof -
  have h: "undoStack exampleWorld \<noteq> []" "redoStack exampleWorld \<noteq> []" "0 < nextAddr exampleWorld"
    by (simp_all add: exampleWorld_def)
  have safe: "list_all jsonSafe (heap exampleWorld 0)"
    by (simp add: exampleWorld_def rectJ_def arrowJ_def)
  have rt: "map jsonRoundTrip (heap exampleWorld 0) = heap exampleWorld 0"
    using safe by (rule jsonSafe_list)
  show ?thesis
    using h safe history_json_roundtrip[of exampleWorld 0 0] by (simp add: rt)
qed

subsection \<open>Binding propagation: frame and lookups\<close>

lemma foldl_rel:
  assumes "\<And>x. R x x" and "\<And>x y z. R x y \<Longrightarrow> R y z \<Longrightarrow> R x z" and "\<And>x i. R x (f x i)"
  shows "R x (foldl f x js)"
proof (induction js arbitrary: x)
  case Nil
  show ?case by (simp add: assms(1))
next
  case (Cons j js)
  have "R x (f x j)" by (rule assms(3))
  moreover have "R (f x j) (foldl f (f x j) js)" by (rule Cons.IH)
  ultimately show ?case using assms(2) by simp
qed

lemma foldl_other:
  assumes "\<And>xs i j. j \<noteq> i \<Longrightarrow> f xs i ! j = xs ! (j::nat)"
  shows "j \<notin> set js \<Longrightarrow> foldl f xs js ! j = xs ! j"
  by (induction js arbitrary: xs) (auto simp: assms)

lemma foldl_at:
  assumes oth: "\<And>xs i j. j \<noteq> i \<Longrightarrow> f xs i ! j = xs ! (j::nat)"
  assumes "i < n"
  shows "foldl f xs [0..<n] ! i = f (foldl f xs [0..<i]) i ! i"
proof -
  have split: "[0..<n] = [0..<i] @ i # [Suc i..<n]"
    using assms(2) by (metis upt_conv_Cons upt_add_eq_append le0 less_imp_le_nat
        add_0 le_add_diff_inverse)
  have "foldl f xs [0..<n] = foldl f (f (foldl f xs [0..<i]) i) [Suc i..<n]"
    by (simp add: split)
  moreover have "i \<notin> set [Suc i..<n]" by simp
  ultimately show ?thesis using foldl_other[of f i "[Suc i..<n]", OF oth] by simp
qed

lemma sameButEndpoints_refl: "sameButEndpoints s s"
  by (simp add: sameButEndpoints_def split: option.splits)

lemma otherFields_stype: "otherFields s' = otherFields s \<Longrightarrow> stype s' = stype s"
  by (drule arg_cong[where f = stype]) (simp add: otherFields_def)

lemma otherFields_sid: "otherFields s' = otherFields s \<Longrightarrow> sid s' = sid s"
  by (drule arg_cong[where f = sid]) (simp add: otherFields_def)

lemma sameButEndpoints_hasEndpoints:
  "sameButEndpoints s s' \<Longrightarrow> hasEndpoints s' = hasEndpoints s"
  by (auto simp: sameButEndpoints_def hasEndpoints_def dest!: otherFields_stype split: option.splits)

lemma sameButEndpoints_sid: "sameButEndpoints s s' \<Longrightarrow> sid s' = sid s"
  unfolding sameButEndpoints_def by (elim conjE) (rule otherFields_sid)

lemma sameButEndpoints_trans:
  assumes "sameButEndpoints s s'" and "sameButEndpoints s' s''"
  shows "sameButEndpoints s s''"
proof -
  have he: "hasEndpoints s' = hasEndpoints s"
    using assms(1) by (rule sameButEndpoints_hasEndpoints)
  have 1: "otherFields s'' = otherFields s"
    using assms by (simp add: sameButEndpoints_def)
  have 2: "\<not> hasEndpoints s \<longrightarrow> s'' = s"
    using assms he by (simp add: sameButEndpoints_def)
  have 3: "(case points s of
        None \<Rightarrow> points s'' = None
      | Some ps \<Rightarrow>
          (\<exists>ps'. points s'' = Some ps' \<and> length ps' = length ps \<and>
                 (\<forall>k. 0 < k \<and> k < length ps - 1 \<longrightarrow> ps' ! k = ps ! k)))"
    using assms by (auto simp: sameButEndpoints_def split: option.splits)
  show ?thesis using 1 2 3 by (simp add: sameButEndpoints_def)
qed

lemma sameButEndpoints_setFirst:
  "hasEndpoints s \<Longrightarrow> sameButEndpoints s (setPoint s 0 pt)"
  by (auto simp: sameButEndpoints_def setPoint_def otherFields_def hasEndpoints_def split: option.splits)

lemma sameButEndpoints_setLast:
  "hasEndpoints s \<Longrightarrow> sameButEndpoints s (setPoint s (lastIndex s) pt)"
  by (auto simp: sameButEndpoints_def setPoint_def otherFields_def hasEndpoints_def lastIndex_def
      split: option.splits)

lemma sameButEndpoints_clearStart:
  "hasEndpoints s \<Longrightarrow> sameButEndpoints s (s\<lparr> startBinding := None \<rparr>)"
  by (auto simp: sameButEndpoints_def otherFields_def split: option.splits)

lemma sameButEndpoints_clearEnd:
  "hasEndpoints s \<Longrightarrow> sameButEndpoints s (s\<lparr> endBinding := None \<rparr>)"
  by (auto simp: sameButEndpoints_def otherFields_def split: option.splits)

lemma frame_refl: "list_all2 sameButEndpoints xs xs"
  by (simp add: list_all2_refl sameButEndpoints_refl)

lemma frame_update:
  assumes "i < length xs \<Longrightarrow> sameButEndpoints (xs ! i) s'"
  shows "list_all2 sameButEndpoints xs (xs[i := s'])"
proof (cases "i < length xs")
  case True
  have "list_all2 sameButEndpoints (xs[i := xs ! i]) (xs[i := s'])"
    by (rule list_all2_update_cong) (simp_all add: frame_refl assms True)
  then show ?thesis by simp
next
  case False
  then have "xs[i := s'] = xs" by (simp add: list_update_beyond)
  then show ?thesis by (simp add: frame_refl)
qed

lemma frame_trans:
  "list_all2 sameButEndpoints xs ys \<Longrightarrow> list_all2 sameButEndpoints ys zs \<Longrightarrow>
   list_all2 sameButEndpoints xs zs"
  using list_all2_trans[of sameButEndpoints sameButEndpoints sameButEndpoints xs ys zs]
    sameButEndpoints_trans by blast

lemma frame_resolveStart:
  assumes "hasEndpoints (xs ! i)"
  shows "list_all2 sameButEndpoints xs (resolveStart xs i)"
proof (cases "startBinding (xs ! i)")
  case None
  then show ?thesis by (simp add: resolveStart_def frame_refl)
next
  case (Some b)
  show ?thesis
  proof (cases "findShape xs (shapeId b)")
    case None
    with Some show ?thesis
      by (simp add: resolveStart_def Let_def frame_update sameButEndpoints_clearStart assms)
  next
    case (Some t)
    with \<open>startBinding (xs ! i) = Some b\<close> show ?thesis
      by (simp add: resolveStart_def Let_def frame_update sameButEndpoints_setFirst assms)
  qed
qed

lemma frame_resolveEnd:
  assumes "hasEndpoints (xs ! i)"
  shows "list_all2 sameButEndpoints xs (resolveEnd xs i)"
proof (cases "endBinding (xs ! i)")
  case None
  then show ?thesis by (simp add: resolveEnd_def frame_refl)
next
  case (Some b)
  show ?thesis
  proof (cases "findShape xs (shapeId b)")
    case None
    with Some show ?thesis
      by (simp add: resolveEnd_def Let_def frame_update sameButEndpoints_clearEnd assms)
  next
    case (Some t)
    with \<open>endBinding (xs ! i) = Some b\<close> show ?thesis
      by (simp add: resolveEnd_def Let_def frame_update sameButEndpoints_setLast assms)
  qed
qed

lemma resolveStart_length: "length (resolveStart xs i) = length xs"
  by (simp add: resolveStart_def Let_def split: option.splits)

lemma resolveStart_other: "j \<noteq> i \<Longrightarrow> resolveStart xs i ! j = xs ! j"
  by (simp add: resolveStart_def Let_def split: option.splits)

lemma resolveEnd_length: "length (resolveEnd xs i) = length xs"
  by (simp add: resolveEnd_def Let_def split: option.splits)

lemma resolveEnd_other: "j \<noteq> i \<Longrightarrow> resolveEnd xs i ! j = xs ! j"
  by (simp add: resolveEnd_def Let_def split: option.splits)

lemma frame_nth:
  "list_all2 sameButEndpoints xs ys \<Longrightarrow> i < length xs \<Longrightarrow> sameButEndpoints (xs ! i) (ys ! i)"
  by (simp add: list_all2_conv_all_nth)

lemma resolveStart_hasEndpoints:
  assumes "hasEndpoints (xs ! i)" "i < length xs"
  shows "hasEndpoints (resolveStart xs i ! i)"
  using frame_nth[OF frame_resolveStart[OF assms(1)] assms(2)] assms(1)
  by (simp add: sameButEndpoints_hasEndpoints)

lemma frame_resolveAt:
  assumes "i < length xs"
  shows "list_all2 sameButEndpoints xs (resolveAt xs i)"
proof (cases "hasEndpoints (xs ! i)")
  case True
  have "list_all2 sameButEndpoints (resolveStart xs i) (resolveEnd (resolveStart xs i) i)"
    by (rule frame_resolveEnd) (rule resolveStart_hasEndpoints[OF True assms])
  with frame_resolveStart[OF True]
  have "list_all2 sameButEndpoints xs (resolveEnd (resolveStart xs i) i)"
    by (rule frame_trans)
  then show ?thesis by (simp add: resolveAt_def True)
next
  case False
  then show ?thesis by (simp add: resolveAt_def frame_refl)
qed

lemma resolveStart_beyond: "length xs \<le> i \<Longrightarrow> resolveStart xs i = xs"
  by (simp add: resolveStart_def Let_def list_update_beyond split: option.splits)

lemma resolveEnd_beyond: "length xs \<le> i \<Longrightarrow> resolveEnd xs i = xs"
  by (simp add: resolveEnd_def Let_def list_update_beyond split: option.splits)

lemma resolveAt_beyond: "length xs \<le> i \<Longrightarrow> resolveAt xs i = xs"
  by (simp add: resolveAt_def resolveStart_beyond resolveEnd_beyond)

lemma frame_resolveAt_any: "list_all2 sameButEndpoints xs (resolveAt xs i)"
proof (cases "i < length xs")
  case True
  then show ?thesis by (rule frame_resolveAt)
next
  case False
  then show ?thesis by (simp add: resolveAt_beyond frame_refl)
qed

lemma resolveAt_other: "j \<noteq> i \<Longrightarrow> resolveAt xs i ! j = xs ! j"
  by (simp add: resolveAt_def resolveStart_other resolveEnd_other)

lemma frame_foldl_resolveAt: "list_all2 sameButEndpoints xs (foldl resolveAt xs js)"
  by (rule foldl_rel[where R = "list_all2 sameButEndpoints"])
     (auto intro: frame_refl frame_trans frame_resolveAt_any)

lemma frame_resolveAll: "list_all2 sameButEndpoints xs (resolveAllBindings xs)"
  unfolding resolveAllBindings_def by (rule frame_foldl_resolveAt)

lemma resolveAll_length: "length (resolveAllBindings xs) = length xs"
  using frame_resolveAll[of xs] by (simp add: list_all2_lengthD)

lemma resolveAll_nth:
  assumes "i < length xs"
  shows "resolveAllBindings xs ! i = resolveAt (foldl resolveAt xs [0..<i]) i ! i"
  unfolding resolveAllBindings_def
  by (rule foldl_at) (simp_all add: resolveAt_other assms)

lemma prefix_nth: "foldl resolveAt xs [0..<i] ! i = xs ! i"
  by (rule foldl_other) (simp_all add: resolveAt_other)

lemma frame_map_sid: "list_all2 sameButEndpoints xs ys \<Longrightarrow> map sid ys = map sid xs"
  by (rule nth_equalityI)
     (auto simp: list_all2_conv_all_nth dest!: sameButEndpoints_sid)

lemma findShape_None_iff: "findShape xs t = None \<longleftrightarrow> t \<notin> set (map sid xs)"
  by (auto simp: findShape_def find_None_iff)

lemma frame_find_None:
  "list_all2 sameButEndpoints xs ys \<Longrightarrow> (findShape ys t = None) = (findShape xs t = None)"
  by (simp add: findShape_None_iff frame_map_sid)

lemma frame_find_Some:
  assumes fr: "list_all2 sameButEndpoints xs ys"
    and f: "findShape xs t = Some tg" and ne: "\<not> hasEndpoints tg"
  shows "findShape ys t = Some tg"
proof -
  from f obtain i where i: "i < length xs" "sid (xs ! i) = t" "tg = xs ! i"
    "\<forall>j<i. sid (xs ! j) \<noteq> t"
    by (auto simp: findShape_def find_Some_iff)
  have len: "length ys = length xs" using fr by (simp add: list_all2_lengthD)
  have sids: "\<And>j. j < length xs \<Longrightarrow> sid (ys ! j) = sid (xs ! j)"
    using fr by (simp add: list_all2_conv_all_nth sameButEndpoints_sid)
  have "sameButEndpoints (xs ! i) (ys ! i)" using fr i(1) by (rule frame_nth)
  with ne i(3) have same: "ys ! i = xs ! i" by (simp add: sameButEndpoints_def)
  have "\<exists>k<length ys. sid (ys ! k) = t \<and> tg = ys ! k \<and> (\<forall>j<k. sid (ys ! j) \<noteq> t)"
    using i len sids same by (intro exI[of _ i]) auto
  then show ?thesis by (simp add: findShape_def find_Some_iff)
qed

lemma frame_find_free:
  assumes "list_all2 sameButEndpoints xs ys" and "freeTarget xs (Some b)"
  shows "findShape ys (shapeId b) = findShape xs (shapeId b)"
proof (cases "findShape xs (shapeId b)")
  case None
  then show ?thesis using frame_find_None[OF assms(1), of "shapeId b"] by simp
next
  case (Some t)
  with assms(2) have "\<not> hasEndpoints t" by (simp add: freeTarget_def)
  with assms(1) Some show ?thesis by (simp add: frame_find_Some)
qed

lemma setPoint_fields [simp]:
  "startBinding (setPoint s k p) = startBinding s"
  "endBinding (setPoint s k p) = endBinding s"
  "stype (setPoint s k p) = stype s"
  "sid (setPoint s k p) = sid s"
  by (simp_all add: setPoint_def)

lemma resolveStart_nth:
  assumes "i < length ys"
  shows "resolveStart ys i ! i =
           (case startBinding (ys ! i) of
              None \<Rightarrow> ys ! i
            | Some b \<Rightarrow>
                (case findShape ys (shapeId b) of
                   Some t \<Rightarrow> setPoint (ys ! i) 0 (getBoundaryPointFromAngle t (angle b))
                 | None \<Rightarrow> (ys ! i)\<lparr> startBinding := None \<rparr>))"
  using assms by (simp add: resolveStart_def Let_def split: option.splits)

lemma resolveEnd_nth:
  assumes "i < length ys"
  shows "resolveEnd ys i ! i =
           (case endBinding (ys ! i) of
              None \<Rightarrow> ys ! i
            | Some b \<Rightarrow>
                (case findShape ys (shapeId b) of
                   Some t \<Rightarrow> setPoint (ys ! i) (lastIndex (ys ! i)) (getBoundaryPointFromAngle t (angle b))
                 | None \<Rightarrow> (ys ! i)\<lparr> endBinding := None \<rparr>))"
  using assms by (simp add: resolveEnd_def Let_def split: option.splits)

lemma resolveStart_endBinding:
  "i < length ys \<Longrightarrow> endBinding (resolveStart ys i ! i) = endBinding (ys ! i)"
  by (simp add: resolveStart_nth split: option.splits)

lemma resolveAt_nth_resolveShape:
  assumes fr: "list_all2 sameButEndpoints xs ys" and i: "i < length ys"
    and free: "hasEndpoints (ys ! i) \<Longrightarrow>
                 freeTarget xs (startBinding (ys ! i)) \<and> freeTarget xs (endBinding (ys ! i))"
  shows "resolveAt ys i ! i = resolveShape (findShape xs) (ys ! i)"
proof (cases "hasEndpoints (ys ! i)")
  case False
  then show ?thesis by (simp add: resolveAt_def resolveShape_def)
next
  case True
  let ?ys1 = "resolveStart ys i"
  have fr1: "list_all2 sameButEndpoints xs ?ys1"
    using fr frame_resolveStart[OF True] by (rule frame_trans)
  have i1: "i < length ?ys1" using i by (simp add: resolveStart_length)
  have l0: "\<And>b. startBinding (ys ! i) = Some b \<Longrightarrow> findShape ys (shapeId b) = findShape xs (shapeId b)"
    using free[OF True] frame_find_free[OF fr] by simp
  have l1: "\<And>b. endBinding (ys ! i) = Some b \<Longrightarrow> findShape ?ys1 (shapeId b) = findShape xs (shapeId b)"
    using free[OF True] frame_find_free[OF fr1] by simp
  define s1 where "s1 =
           (case startBinding (ys ! i) of
              None \<Rightarrow> ys ! i
            | Some b \<Rightarrow>
                (case findShape xs (shapeId b) of
                   Some t \<Rightarrow> setPoint (ys ! i) 0 (getBoundaryPointFromAngle t (angle b))
                 | None \<Rightarrow> (ys ! i)\<lparr> startBinding := None \<rparr>))"
  have s1: "?ys1 ! i = s1"
    using l0 by (simp add: s1_def resolveStart_nth[OF i] split: option.splits)
  have e1: "endBinding s1 = endBinding (ys ! i)"
    using resolveStart_endBinding[OF i] by (simp add: s1)
  have l2: "\<And>b. endBinding s1 = Some b \<Longrightarrow> findShape ?ys1 (shapeId b) = findShape xs (shapeId b)"
    using l1 e1 by simp
  have "resolveAt ys i ! i = resolveEnd ?ys1 i ! i"
    by (simp add: resolveAt_def True)
  also have "\<dots> =
           (case endBinding s1 of
              None \<Rightarrow> s1
            | Some b \<Rightarrow>
                (case findShape xs (shapeId b) of
                   Some t \<Rightarrow> setPoint s1 (lastIndex s1) (getBoundaryPointFromAngle t (angle b))
                 | None \<Rightarrow> s1\<lparr> endBinding := None \<rparr>))"
    using l2 by (simp add: resolveEnd_nth[OF i1] s1 split: option.splits)
  also have "\<dots> = resolveShape (findShape xs) (ys ! i)"
    unfolding resolveShape_def Let_def s1_def[symmetric] by (simp add: True)
  finally show ?thesis .
qed

lemma resolveShape_hasEndpoints: "hasEndpoints (resolveShape L s) = hasEndpoints s"
  by (auto simp: resolveShape_def Let_def hasEndpoints_def setPoint_def split: option.splits)

lemma resolveShape_startBinding:
  "startBinding (resolveShape L s) = startBinding s \<or> startBinding (resolveShape L s) = None"
  by (auto simp: resolveShape_def Let_def split: option.splits)

lemma resolveShape_endBinding:
  "endBinding (resolveShape L s) = endBinding s \<or> endBinding (resolveShape L s) = None"
  by (auto simp: resolveShape_def Let_def split: option.splits)

lemma setPoint_twice: "setPoint (setPoint s k p) k p = setPoint s k p"
  by (cases "points s") (simp_all add: setPoint_def)

lemma setPoint_swap:
  "k \<noteq> j \<Longrightarrow> setPoint (setPoint s k p) j q = setPoint (setPoint s j q) k p"
  by (cases "points s") (simp_all add: setPoint_def list_update_swap)

lemma lastIndex_setPoint [simp]: "lastIndex (setPoint s k p) = lastIndex s"
  by (cases "points s") (simp_all add: setPoint_def lastIndex_def)

lemma hasEndpoints_lastIndex: "hasEndpoints s \<Longrightarrow> lastIndex s \<noteq> 0"
  by (auto simp: hasEndpoints_def lastIndex_def split: option.splits)

lemma list_update_again:
  "k \<noteq> j \<Longrightarrow> ps[k := p, j := q, k := p] = ps[k := p, j := q]"
  using list_update_swap[of j k "ps[k := p]" q p] by simp

lemma setPoint_again:
  "k \<noteq> j \<Longrightarrow> setPoint (setPoint (setPoint s k p) j q) k p = setPoint (setPoint s k p) j q"
  by (cases "points s") (simp_all add: setPoint_def list_update_again)

lemma setPoint_clearEnd:
  "setPoint (s\<lparr> endBinding := None \<rparr>) k p = (setPoint s k p)\<lparr> endBinding := None \<rparr>"
  by (simp add: setPoint_def)

lemma hasEndpoints_setPoint [simp]: "hasEndpoints (setPoint s k p) = hasEndpoints s"
  by (cases "points s") (simp_all add: setPoint_def hasEndpoints_def)

lemma hasEndpoints_clear [simp]:
  "hasEndpoints (s\<lparr> startBinding := x \<rparr>) = hasEndpoints s"
  "hasEndpoints (s\<lparr> endBinding := x \<rparr>) = hasEndpoints s"
  by (simp_all add: hasEndpoints_def)

lemma lastIndex_clear [simp]:
  "lastIndex (s\<lparr> startBinding := x \<rparr>) = lastIndex s"
  "lastIndex (s\<lparr> endBinding := x \<rparr>) = lastIndex s"
  by (simp_all add: lastIndex_def)

lemma resolveShape_idem: "resolveShape L (resolveShape L s) = resolveShape L s"
proof (cases "hasEndpoints s")
  case False
  then show ?thesis by (simp add: resolveShape_def)
next
  case True
  then have ne: "0 \<noteq> lastIndex s" using hasEndpoints_lastIndex by fastforce
  show ?thesis
  proof (cases "startBinding s")
    case None
    then show ?thesis using True
      by (cases "endBinding s")
         (auto simp: resolveShape_def Let_def setPoint_twice split: option.splits)
  next
    case (Some b)
    show ?thesis
    proof (cases "L (shapeId b)")
      case None
      with Some True show ?thesis
        by (cases "endBinding s")
           (auto simp: resolveShape_def Let_def setPoint_twice split: option.splits)
    next
      case (Some t)
      with \<open>startBinding s = Some b\<close> True ne show ?thesis
        by (cases "endBinding s")
           (auto simp: resolveShape_def Let_def setPoint_twice setPoint_again setPoint_clearEnd
                 split: option.splits)
    qed
  qed
qed

lemma freeTarget_frame:
  assumes "list_all2 sameButEndpoints xs ys" and "freeTarget xs bo"
  shows "freeTarget ys bo"
proof (cases bo)
  case None
  then show ?thesis by (simp add: freeTarget_def)
next
  case (Some b)
  with assms have "findShape ys (shapeId b) = findShape xs (shapeId b)"
    by (simp add: frame_find_free)
  with Some assms(2) show ?thesis by (simp add: freeTarget_def)
qed

lemma freeTarget_None [simp]: "freeTarget xs None"
  by (simp add: freeTarget_def)

lemma resolveAll_nth_resolveShape:
  assumes fr0: "list_all2 sameButEndpoints xs0 xs" and i: "i < length xs"
    and free: "hasEndpoints (xs ! i) \<Longrightarrow>
                 freeTarget xs0 (startBinding (xs ! i)) \<and> freeTarget xs0 (endBinding (xs ! i))"
  shows "resolveAllBindings xs ! i = resolveShape (findShape xs0) (xs ! i)"
proof -
  let ?P = "foldl resolveAt xs [0..<i]"
  have fr: "list_all2 sameButEndpoints xs0 ?P"
    using fr0 frame_foldl_resolveAt by (rule frame_trans)
  have len: "i < length ?P" using fr fr0 i by (metis list_all2_lengthD)
  have same: "?P ! i = xs ! i" by (rule prefix_nth)
  have free': "hasEndpoints (?P ! i) \<Longrightarrow>
                freeTarget xs0 (startBinding (?P ! i)) \<and> freeTarget xs0 (endBinding (?P ! i))"
    using free by (simp add: same)
  have "resolveAllBindings xs ! i = resolveAt ?P i ! i" using i by (rule resolveAll_nth)
  also have "\<dots> = resolveShape (findShape xs0) (?P ! i)"
    by (rule resolveAt_nth_resolveShape[OF fr len free'])
  finally show ?thesis by (simp add: same)
qed

lemma avoid_nth:
  "bindingsAvoidConnectors xs \<Longrightarrow> i < length xs \<Longrightarrow> hasEndpoints (xs ! i) \<Longrightarrow>
   freeTarget xs (startBinding (xs ! i)) \<and> freeTarget xs (endBinding (xs ! i))"
  by (simp add: bindingsAvoidConnectors_def list_all_length)

text \<open>
  C5 (amended). On a shape list in which no binding of a line or arrow with two
  or more points resolves to a line or arrow with two or more points, calling
  \<open>resolveAllBindings\<close> twice gives the same list as calling it once.
\<close>

theorem resolveAllBindings_idempotent:
  assumes av: "bindingsAvoidConnectors xs"
  shows "resolveAllBindings (resolveAllBindings xs) = resolveAllBindings xs"
proof (rule nth_equalityI)
  show "length (resolveAllBindings (resolveAllBindings xs)) = length (resolveAllBindings xs)"
    by (simp add: resolveAll_length)
next
  fix i assume "i < length (resolveAllBindings (resolveAllBindings xs))"
  then have i: "i < length xs" by (simp add: resolveAll_length)
  let ?R = "resolveAllBindings xs"
  let ?L = "findShape xs"
  have fr: "list_all2 sameButEndpoints xs ?R" by (rule frame_resolveAll)
  have r: "?R ! i = resolveShape ?L (xs ! i)"
    using frame_refl i avoid_nth[OF av i] by (rule resolveAll_nth_resolveShape)
  have i': "i < length ?R" using i by (simp add: resolveAll_length)
  have free: "freeTarget xs (startBinding (?R ! i)) \<and> freeTarget xs (endBinding (?R ! i))"
    if he: "hasEndpoints (?R ! i)"
  proof -
    have he0: "hasEndpoints (xs ! i)" using he by (simp add: r resolveShape_hasEndpoints)
    have f0: "freeTarget xs (startBinding (xs ! i)) \<and> freeTarget xs (endBinding (xs ! i))"
      using av i he0 by (rule avoid_nth)
    have "freeTarget xs (startBinding (?R ! i))"
      using resolveShape_startBinding[of ?L "xs ! i"] f0 by (auto simp: r)
    moreover have "freeTarget xs (endBinding (?R ! i))"
      using resolveShape_endBinding[of ?L "xs ! i"] f0 by (auto simp: r)
    ultimately show ?thesis by simp
  qed
  have "resolveAllBindings ?R ! i = resolveShape ?L (?R ! i)"
    using fr i' free by (rule resolveAll_nth_resolveShape)
  also have "\<dots> = ?R ! i" by (simp add: r resolveShape_idem)
  finally show "resolveAllBindings ?R ! i = ?R ! i" .
qed

lemma updateStart_nth:
  assumes "i < length ys"
  shows "updateStart ys m i ! i =
           (case startBinding (ys ! i) of
              None \<Rightarrow> ys ! i
            | Some b \<Rightarrow>
                if shapeId b = m then
                  (case findShape ys m of
                     Some t \<Rightarrow> setPoint (ys ! i) 0 (getBoundaryPointFromAngle t (angle b))
                   | None \<Rightarrow> ys ! i)
                else ys ! i)"
  using assms by (simp add: updateStart_def Let_def split: option.splits)

lemma updateEnd_nth:
  assumes "i < length ys"
  shows "updateEnd ys m i ! i =
           (case endBinding (ys ! i) of
              None \<Rightarrow> ys ! i
            | Some b \<Rightarrow>
                if shapeId b = m then
                  (case findShape ys m of
                     Some t \<Rightarrow> setPoint (ys ! i) (lastIndex (ys ! i)) (getBoundaryPointFromAngle t (angle b))
                   | None \<Rightarrow> ys ! i)
                else ys ! i)"
  using assms by (simp add: updateEnd_def Let_def split: option.splits)

lemma updateStart_length: "length (updateStart xs m i) = length xs"
  by (simp add: updateStart_def Let_def split: option.splits)

lemma updateEnd_length: "length (updateEnd xs m i) = length xs"
  by (simp add: updateEnd_def Let_def split: option.splits)

lemma updateStart_other: "j \<noteq> i \<Longrightarrow> updateStart xs m i ! j = xs ! j"
  by (simp add: updateStart_def Let_def split: option.splits)

lemma updateEnd_other: "j \<noteq> i \<Longrightarrow> updateEnd xs m i ! j = xs ! j"
  by (simp add: updateEnd_def Let_def split: option.splits)

lemma updateStart_beyond: "length xs \<le> i \<Longrightarrow> updateStart xs m i = xs"
  by (simp add: updateStart_def Let_def list_update_beyond split: option.splits)

lemma updateEnd_beyond: "length xs \<le> i \<Longrightarrow> updateEnd xs m i = xs"
  by (simp add: updateEnd_def Let_def list_update_beyond split: option.splits)

lemma updateAt_other: "j \<noteq> i \<Longrightarrow> updateAt m xs i ! j = xs ! j"
  by (simp add: updateAt_def updateStart_other updateEnd_other)

lemma updateAt_length: "length (updateAt m xs i) = length xs"
  by (simp add: updateAt_def updateStart_length updateEnd_length)

lemma frame_updateStart:
  assumes "hasEndpoints (xs ! i)"
  shows "list_all2 sameButEndpoints xs (updateStart xs m i)"
proof (cases "startBinding (xs ! i)")
  case None
  then show ?thesis by (simp add: updateStart_def frame_refl)
next
  case (Some b)
  show ?thesis
  proof (cases "findShape xs m")
    case None
    with Some show ?thesis by (simp add: updateStart_def Let_def frame_refl)
  next
    case (Some t)
    with \<open>startBinding (xs ! i) = Some b\<close> show ?thesis
      by (simp add: updateStart_def Let_def frame_refl frame_update sameButEndpoints_setFirst assms)
  qed
qed

lemma frame_updateEnd:
  assumes "hasEndpoints (xs ! i)"
  shows "list_all2 sameButEndpoints xs (updateEnd xs m i)"
proof (cases "endBinding (xs ! i)")
  case None
  then show ?thesis by (simp add: updateEnd_def frame_refl)
next
  case (Some b)
  show ?thesis
  proof (cases "findShape xs m")
    case None
    with Some show ?thesis by (simp add: updateEnd_def Let_def frame_refl)
  next
    case (Some t)
    with \<open>endBinding (xs ! i) = Some b\<close> show ?thesis
      by (simp add: updateEnd_def Let_def frame_refl frame_update sameButEndpoints_setLast assms)
  qed
qed

lemma frame_updateAt: "list_all2 sameButEndpoints xs (updateAt m xs i)"
proof (cases "hasEndpoints (xs ! i) \<and> i < length xs")
  case True
  then have he: "hasEndpoints (xs ! i)" and i: "i < length xs" by simp_all
  have "hasEndpoints (updateStart xs m i ! i)"
    using frame_nth[OF frame_updateStart[OF he, of m] i] he by (simp add: sameButEndpoints_hasEndpoints)
  then have "list_all2 sameButEndpoints (updateStart xs m i) (updateEnd (updateStart xs m i) m i)"
    by (rule frame_updateEnd)
  with frame_updateStart[OF he]
  have "list_all2 sameButEndpoints xs (updateEnd (updateStart xs m i) m i)"
    by (rule frame_trans)
  then show ?thesis by (simp add: updateAt_def he)
next
  case False
  then show ?thesis
    by (auto simp: updateAt_def frame_refl updateStart_beyond updateEnd_beyond)
qed

lemma frame_foldl_updateAt: "list_all2 sameButEndpoints xs (foldl (updateAt m) xs js)"
  by (rule foldl_rel[where R = "list_all2 sameButEndpoints"])
     (auto intro: frame_refl frame_trans frame_updateAt)

lemma frame_updateBindings: "list_all2 sameButEndpoints xs (updateBindings xs m)"
  unfolding updateBindings_def by (rule frame_foldl_updateAt)

lemma kept_refl: "list_all2 bindingsKept xs xs"
  by (simp add: list_all2_refl bindingsKept_def)

lemma kept_trans:
  "list_all2 bindingsKept xs ys \<Longrightarrow> list_all2 bindingsKept ys zs \<Longrightarrow> list_all2 bindingsKept xs zs"
  using list_all2_trans[of bindingsKept bindingsKept bindingsKept xs ys zs]
  by (auto simp: bindingsKept_def)

lemma kept_update:
  assumes "bindingsKept (xs ! i) s'"
  shows "list_all2 bindingsKept xs (xs[i := s'])"
proof (cases "i < length xs")
  case True
  have "list_all2 bindingsKept (xs[i := xs ! i]) (xs[i := s'])"
    by (rule list_all2_update_cong) (simp_all add: kept_refl assms)
  then show ?thesis by simp
next
  case False
  then have "xs[i := s'] = xs" by (simp add: list_update_beyond)
  then show ?thesis by (simp add: kept_refl)
qed

lemma kept_updateStart: "list_all2 bindingsKept ys (updateStart ys m i)"
  by (simp add: updateStart_def Let_def kept_refl kept_update bindingsKept_def split: option.splits)

lemma kept_updateEnd: "list_all2 bindingsKept ys (updateEnd ys m i)"
  by (simp add: updateEnd_def Let_def kept_refl kept_update bindingsKept_def split: option.splits)

lemma kept_updateAt: "list_all2 bindingsKept xs (updateAt m xs i)"
  using kept_trans[OF kept_updateStart kept_updateEnd] by (simp add: updateAt_def kept_refl)

lemma kept_updateBindings: "list_all2 bindingsKept xs (updateBindings xs m)"
  unfolding updateBindings_def
  by (rule foldl_rel[where R = "list_all2 bindingsKept"])
     (auto intro: kept_refl kept_trans kept_updateAt)

subsection \<open>Evaluation of the examples\<close>

lemma selfArrow_fields:
  "sid selfArrow = ''S''" "stype selfArrow = ''arrow''"
  "points selfArrow = Some [\<lparr> pt_x = 0, pt_y = 0 \<rparr>, \<lparr> pt_x = 10, pt_y = 10 \<rparr>]"
  "startBinding selfArrow = Some \<lparr> shapeId = ''S'', angle = pi \<rparr>"
  "endBinding selfArrow = None"
  by (simp_all add: selfArrow_def create_def)

lemma rect_fields:
  "sid rectA = ''A''" "stype rectA = ''rectangle''" "points rectA = None"
  "sx rectA = 0" "sy rectA = 0" "width rectA = 100" "height rectA = 100"
  "startBinding rectA = None" "endBinding rectA = None"
  "sid rectB = ''B''" "stype rectB = ''rectangle''" "points rectB = None"
  "sx rectB = 300" "sy rectB = 0" "width rectB = 100" "height rectB = 100"
  "startBinding rectB = None" "endBinding rectB = None"
  by (simp_all add: rectA_def rectB_def create_def)

lemma arrowAB_fields:
  "sid arrowAB = ''C''" "stype arrowAB = ''arrow''"
  "points arrowAB = Some [\<lparr> pt_x = 100, pt_y = 50 \<rparr>, \<lparr> pt_x = 300, pt_y = 50 \<rparr>]"
  "startBinding arrowAB = Some \<lparr> shapeId = ''A'', angle = 0 \<rparr>"
  "endBinding arrowAB = Some \<lparr> shapeId = ''B'', angle = pi \<rparr>"
  by (simp_all add: arrowAB_def create_def)

lemma dangling_fields:
  "sid danglingArrow = ''D''" "stype danglingArrow = ''arrow''"
  "points danglingArrow = Some [\<lparr> pt_x = 0, pt_y = 0 \<rparr>]"
  "startBinding danglingArrow = Some \<lparr> shapeId = ''gone'', angle = 0 \<rparr>"
  "endBinding danglingArrow = None"
  by (simp_all add: danglingArrow_def create_def)

lemmas eval_defs = resolveAllBindings_def resolveAt_def resolveStart_def resolveEnd_def
      updateBindings_def updateAt_def updateStart_def updateEnd_def hasEndpoints_def
      findShape_def  setPoint_def lastIndex_def getBoundaryPointFromAngle_def
      getBoundaryPoint_def getBounds_def storedBox_def pointsBounds_def rayRectFromCenter_def
      rectCases_def ellipseCases_def diamondCases_def Let_def

lemma self1: "resolveAllBindings [selfArrow] =
   [selfArrow\<lparr> points := Some [\<lparr> pt_x = 0, pt_y = 5 \<rparr>, \<lparr> pt_x = 10, pt_y = 10 \<rparr>] \<rparr>]"
  by (simp add: eval_defs selfArrow_fields)

lemma self2: "resolveAllBindings
     [selfArrow\<lparr> points := Some [\<lparr> pt_x = 0, pt_y = 5 \<rparr>, \<lparr> pt_x = 10, pt_y = 10 \<rparr>] \<rparr>] =
   [selfArrow\<lparr> points := Some [\<lparr> pt_x = 0, pt_y = 15 / 2 \<rparr>, \<lparr> pt_x = 10, pt_y = 10 \<rparr>] \<rparr>]"
  by (simp add: eval_defs selfArrow_fields)

subsection \<open>Deletion and dangling bindings\<close>

lemma findShape_mem: "t \<in> sid ` set ys \<longleftrightarrow> findShape ys t \<noteq> None"
  using findShape_None_iff[of ys t] by auto

lemma resolveStart_bindings:
  assumes "i < length ys"
  shows "startBinding (resolveStart ys i ! i) = keepLive (sid ` set ys) (startBinding (ys ! i))"
  using assms
  by (auto simp: resolveStart_nth keepLive_def findShape_mem split: option.splits)

lemma resolveEnd_bindings:
  assumes "i < length ys"
  shows "endBinding (resolveEnd ys i ! i) = keepLive (sid ` set ys) (endBinding (ys ! i))"
    and "startBinding (resolveEnd ys i ! i) = startBinding (ys ! i)"
  using assms
  by (auto simp: resolveEnd_nth keepLive_def findShape_mem split: option.splits)

lemma frame_ids: "list_all2 sameButEndpoints xs ys \<Longrightarrow> sid ` set ys = sid ` set xs"
  using frame_map_sid[of xs ys] by (metis set_map)

lemma resolveAll_bindings:
  assumes i: "i < length xs" and he: "hasEndpoints (xs ! i)"
  shows "startBinding (resolveAllBindings xs ! i) = keepLive (sid ` set xs) (startBinding (xs ! i)) \<and>
         endBinding (resolveAllBindings xs ! i) = keepLive (sid ` set xs) (endBinding (xs ! i))"
proof -
  let ?P = "foldl resolveAt xs [0..<i]"
  let ?P1 = "resolveStart ?P i"
  have fr: "list_all2 sameButEndpoints xs ?P" by (rule frame_foldl_resolveAt)
  have len: "i < length ?P" using fr i by (metis list_all2_lengthD)
  have len1: "i < length ?P1" using len by (simp add: resolveStart_length)
  have same: "?P ! i = xs ! i" by (rule prefix_nth)
  have he': "hasEndpoints (?P ! i)" using he by (simp add: same)
  have fr1: "list_all2 sameButEndpoints xs ?P1"
    using fr frame_resolveStart[OF he'] by (rule frame_trans)
  have r: "resolveAllBindings xs ! i = resolveEnd ?P1 i ! i"
    using resolveAll_nth[OF i] he' by (simp add: resolveAt_def)
  have "startBinding (resolveEnd ?P1 i ! i) = keepLive (sid ` set xs) (startBinding (xs ! i))"
    using resolveEnd_bindings(2)[OF len1] resolveStart_bindings[OF len] frame_ids[OF fr]
    by (simp add: same)
  moreover have "endBinding (resolveEnd ?P1 i ! i) = keepLive (sid ` set xs) (endBinding (xs ! i))"
    using resolveEnd_bindings(1)[OF len1] resolveStart_endBinding[OF len] frame_ids[OF fr1]
    by (simp add: same)
  ultimately show ?thesis by (simp add: r)
qed

lemma clearDeleted_sid: "sid (clearDeleted D s) = sid s"
  by (simp add: clearDeleted_def Let_def split: option.splits)

lemma clearDeleted_kept:
  "sid s \<notin> D \<Longrightarrow>
   clearDeleted D s = s\<lparr> startBinding := keepLive (- D) (startBinding s),
                         endBinding := keepLive (- D) (endBinding s) \<rparr>"
  by (cases "startBinding s"; cases "endBinding s")
     (simp_all add: clearDeleted_def Let_def keepLive_def)

lemma keepLive_UNIV: "keepLive UNIV bo = bo"
  by (cases bo) (simp_all add: keepLive_def)

lemma deleteSelected_shapes:
  "getShapes (deleteSelected st) =
     map (\<lambda>s. s\<lparr> startBinding := keepLive (- selectedIds st) (startBinding s),
                  endBinding := keepLive (- selectedIds st) (endBinding s) \<rparr>)
         (filter (\<lambda>s. sid s \<notin> selectedIds st) (getShapes st))"
proof (cases "selectedIds st = {}")
  case True
  then show ?thesis by (simp add: deleteSelected_def keepLive_UNIV)
next
  case False
  let ?D = "selectedIds st"
  have "getShapes (deleteSelected st) =
          filter (\<lambda>s. sid s \<notin> ?D) (map (clearDeleted ?D) (getShapes st))"
    using False
    by (simp add: deleteSelected_def getShapes_def push_def deepClone_def allocArray_def
        mutate_def Let_def)
  also have "\<dots> = map (clearDeleted ?D) (filter (\<lambda>s. sid s \<notin> ?D) (getShapes st))"
    by (simp add: filter_map comp_def clearDeleted_sid)
  also have "\<dots> = map (\<lambda>s. s\<lparr> startBinding := keepLive (- ?D) (startBinding s),
                  endBinding := keepLive (- ?D) (endBinding s) \<rparr>)
         (filter (\<lambda>s. sid s \<notin> ?D) (getShapes st))"
    by (rule map_cong) (simp_all add: clearDeleted_kept)
  finally show ?thesis .
qed

subsection \<open>Claims on binding propagation\<close>

theorem resolveAllBindings_idempotent_witness:
  "bindingsAvoidConnectors [rectA, rectB, arrowAB] \<and>
   resolveAllBindings (resolveAllBindings [rectA, rectB, arrowAB]) =
     resolveAllBindings [rectA, rectB, arrowAB]"
proof -
  have h: "bindingsAvoidConnectors [rectA, rectB, arrowAB]"
    by (simp add: bindingsAvoidConnectors_def freeTarget_def findShape_def hasEndpoints_def
        rect_fields arrowAB_fields)
  show ?thesis using h resolveAllBindings_idempotent[OF h] by simp
qed

text \<open>
  C5 as stated fails: the start of \<open>selfArrow\<close> is bound to the arrow itself, whose
  bounds change with every pass, so the second pass moves the start point again
  (from \<open>(0, 5)\<close> to \<open>(0, 7.5)\<close>).
\<close>

theorem resolveAllBindings_twice_counterexample:
  "resolveAllBindings (resolveAllBindings [selfArrow]) \<noteq> resolveAllBindings [selfArrow]"
proof
  assume "resolveAllBindings (resolveAllBindings [selfArrow]) = resolveAllBindings [selfArrow]"
  then have "points (hd (resolveAllBindings (resolveAllBindings [selfArrow]))) =
             points (hd (resolveAllBindings [selfArrow]))" by simp
  then show False by (simp add: self1 self2)
qed

text \<open>
  C9. \<open>updateBindings\<close> and \<open>resolveAllBindings\<close> return a list of the same length
  in which every shape is \<open>sameButEndpoints\<close> to the one it was: a shape that is
  not a line or arrow with two or more points is unchanged, and on such a line
  or arrow only the first and last entry of the point list and the two bindings
  may differ. \<open>updateBindings\<close> keeps the two bindings as well.
\<close>

theorem propagation_frame:
  "list_all2 sameButEndpoints xs (updateBindings xs m) \<and>
   list_all2 bindingsKept xs (updateBindings xs m) \<and>
   list_all2 sameButEndpoints xs (resolveAllBindings xs)"
  by (simp add: frame_updateBindings kept_updateBindings frame_resolveAll)

theorem propagation_frame_witness:
  "\<not> hasEndpoints rectA \<and> hasEndpoints arrowAB \<and>
   list_all2 sameButEndpoints [rectA, rectB, arrowAB] (updateBindings [rectA, rectB, arrowAB] ''A'') \<and>
   list_all2 bindingsKept [rectA, rectB, arrowAB] (updateBindings [rectA, rectB, arrowAB] ''A'') \<and>
   list_all2 sameButEndpoints [rectA, rectB, arrowAB] (resolveAllBindings [rectA, rectB, arrowAB])"
  using propagation_frame[of "[rectA, rectB, arrowAB]" "''A''"]
  by (simp add: hasEndpoints_def rect_fields arrowAB_fields)

text \<open>
  C6 (amended). \<open>deleteSelected\<close> leaves exactly the shapes whose id is not
  selected, in their order, each with a binding cleared if and only if its
  target id is selected and with every other field unchanged. After
  \<open>resolveAllBindings\<close>, a binding of a line or arrow with two or more points is
  cleared if its target id is not in the list and kept otherwise; every other
  shape is left as it is, bindings included.
\<close>

theorem deletion_repair:
  "getShapes (deleteSelected st) =
     map (\<lambda>s. s\<lparr> startBinding := keepLive (- selectedIds st) (startBinding s),
                  endBinding := keepLive (- selectedIds st) (endBinding s) \<rparr>)
         (filter (\<lambda>s. sid s \<notin> selectedIds st) (getShapes st)) \<and>
   (\<forall>i<length xs. hasEndpoints (xs ! i) \<longrightarrow>
      startBinding (resolveAllBindings xs ! i) = keepLive (sid ` set xs) (startBinding (xs ! i)) \<and>
      endBinding (resolveAllBindings xs ! i) = keepLive (sid ` set xs) (endBinding (xs ! i))) \<and>
   (\<forall>i<length xs. \<not> hasEndpoints (xs ! i) \<longrightarrow> resolveAllBindings xs ! i = xs ! i)"
proof -
  have "resolveAllBindings xs ! i = xs ! i" if "i < length xs" "\<not> hasEndpoints (xs ! i)" for i
    using frame_nth[OF frame_resolveAll that(1)] that(2) by (simp add: sameButEndpoints_def)
  then show ?thesis
    using deleteSelected_shapes[of st] resolveAll_bindings[of _ xs] by blast
qed

theorem deletion_repair_witness:
  "getShapes (deleteSelected toolsABselected) = [rectB, arrowAB\<lparr> startBinding := None \<rparr>] \<and>
   (1::nat) < length [rectB, arrowAB] \<and> hasEndpoints ([rectB, arrowAB] ! 1) \<and>
   startBinding (resolveAllBindings [rectB, arrowAB] ! 1) = None \<and>
   endBinding (resolveAllBindings [rectB, arrowAB] ! 1) = Some \<lparr> shapeId = ''B'', angle = pi \<rparr>"
proof -
  have sh: "getShapes toolsABselected = [rectA, rectB, arrowAB]"
    and sel: "selectedIds toolsABselected = {''A''}"
    by (simp_all add: toolsABselected_def getShapes_def mutate_def initialTools_def)
  have he: "hasEndpoints ([rectB, arrowAB] ! 1)"
    by (simp add: hasEndpoints_def arrowAB_fields)
  have eq: "arrowAB\<lparr> startBinding := None, endBinding := Some \<lparr> shapeId = ''B'', angle = pi \<rparr> \<rparr>
              = arrowAB\<lparr> startBinding := None \<rparr>"
    by (simp add: arrowAB_def create_def)
  show ?thesis
    using deletion_repair[of toolsABselected "[rectB, arrowAB]"] he
    by (simp add: sh sel keepLive_def rect_fields arrowAB_fields eq)
qed

text \<open>
  C6 as stated fails on a line or arrow with fewer than two points: the loop of
  \<open>resolveAllBindings\<close> skips it, and its binding to the missing shape \<open>gone\<close>
  stays.
\<close>

theorem dangling_binding_counterexample:
  "findShape [danglingArrow] ''gone'' = None \<and>
   startBinding (resolveAllBindings [danglingArrow] ! 0) = Some \<lparr> shapeId = ''gone'', angle = 0 \<rparr>"
  by (simp add: eval_defs dangling_fields)

subsection \<open>Translation of a bound shape\<close>

lemma getBounds_no_points: "points s = None \<Longrightarrow> getBounds s = storedBox s"
  by (simp add: getBounds_def)

lemma move_no_points:
  "points s = None \<Longrightarrow> move s dx dy = s\<lparr> sx := sx s + dx, sy := sy s + dy \<rparr>"
  by (simp add: move_def)

lemma rayRect_shift:
  "rayRectFromCenter (cx + dx) (cy + dy) (cx + dx + u) (cy + dy + v) hw hh =
   \<lparr> pt_x = pt_x (rayRectFromCenter cx cy (cx + u) (cy + v) hw hh) + dx,
     pt_y = pt_y (rayRectFromCenter cx cy (cx + u) (cy + v) hw hh) + dy \<rparr>"
  by (simp add: rayRectFromCenter_def Let_def)

lemma rayEllipse_shift:
  "rayEllipseFromCenter (cx + dx) (cy + dy) (cx + dx + u) (cy + dy + v) hw hh =
   \<lparr> pt_x = pt_x (rayEllipseFromCenter cx cy (cx + u) (cy + v) hw hh) + dx,
     pt_y = pt_y (rayEllipseFromCenter cx cy (cx + u) (cy + v) hw hh) + dy \<rparr>"
  by (simp add: rayEllipseFromCenter_def Let_def)

lemma rayDiamond_shift:
  "rayDiamondFromCenter (cx + dx) (cy + dy) (cx + dx + u) (cy + dy + v) hw hh =
   \<lparr> pt_x = pt_x (rayDiamondFromCenter cx cy (cx + u) (cy + v) hw hh) + dx,
     pt_y = pt_y (rayDiamondFromCenter cx cy (cx + u) (cy + v) hw hh) + dy \<rparr>"
  by (simp add: rayDiamondFromCenter_def Let_def)

lemma getBoundaryPointFromAngle_move:
  assumes "points s = None"
  shows "getBoundaryPointFromAngle (move s dx dy) a =
         \<lparr> pt_x = pt_x (getBoundaryPointFromAngle s a) + dx,
           pt_y = pt_y (getBoundaryPointFromAngle s a) + dy \<rparr>"
proof -
  let ?s' = "s\<lparr> sx := sx s + dx, sy := sy s + dy \<rparr>"
  have b': "getBounds ?s' = \<lparr> b_x = sx s + dx, b_y = sy s + dy, b_w = width s, b_h = height s \<rparr>"
    using assms by (simp add: getBounds_def storedBox_def)
  have b: "getBounds s = \<lparr> b_x = sx s, b_y = sy s, b_w = width s, b_h = height s \<rparr>"
    using assms by (simp add: getBounds_def storedBox_def)
  have e1: "sx s + dx + width s / 2 = (sx s + width s / 2) + dx" by simp
  have e2: "sy s + dy + height s / 2 = (sy s + height s / 2) + dy" by simp
  show ?thesis
    unfolding move_no_points[OF assms] getBoundaryPointFromAngle_def getBoundaryPoint_def Let_def b b'
    by (simp add: e1 e2 rayRect_shift rayEllipse_shift rayDiamond_shift del: add.commute)
qed

lemma point_eta [simp]: "\<lparr> pt_x = pt_x p, pt_y = pt_y p \<rparr> = (p::point)"
  by (cases p) simp

lemma last_update_last: "length qs = n \<Longrightarrow> 0 < n \<Longrightarrow> last (qs[n - Suc 0 := v]) = v"
  by (cases "qs = []") (auto simp: last_list_update)

lemma findShape_distinct:
  assumes "distinct (map sid xs)" and "k < length xs"
  shows "findShape xs (sid (xs ! k)) = Some (xs ! k)"
proof -
  have "\<forall>j<k. sid (xs ! j) \<noteq> sid (xs ! k)"
  proof (intro allI impI)
    fix j assume "j < k"
    then have jk: "j < length (map sid xs)" "k < length (map sid xs)" "j \<noteq> k"
      using assms(2) by simp_all
    have "map sid xs ! j \<noteq> map sid xs ! k"
      using assms(1) jk unfolding distinct_conv_nth by blast
    then show "sid (xs ! j) \<noteq> sid (xs ! k)" using \<open>j < k\<close> assms(2) by simp
  qed
  then have "\<exists>i<length xs. sid (xs ! i) = sid (xs ! k) \<and> xs ! k = xs ! i \<and>
               (\<forall>j<i. sid (xs ! j) \<noteq> sid (xs ! k))"
    using assms(2) by (intro exI[of _ k]) simp
  then show ?thesis by (simp add: findShape_def find_Some_iff)
qed

lemma updateBindings_nth:
  assumes "j < length xs"
  shows "updateBindings xs m ! j = updateAt m (foldl (updateAt m) xs [0..<j]) j ! j"
  unfolding updateBindings_def
  by (rule foldl_at) (simp_all add: updateAt_other assms)

lemma update_prefix_nth: "foldl (updateAt m) xs [0..<j] ! j = xs ! j"
  by (rule foldl_other) (simp_all add: updateAt_other)

lemma container_not_connector: "stype s \<in> set CONTAINER_TYPES \<Longrightarrow> \<not> hasEndpoints s"
  by (auto simp: CONTAINER_TYPES_def hasEndpoints_def)

lemma updateBindings_endpoints:
  assumes f: "findShape xs m = Some t" and nt: "\<not> hasEndpoints t"
    and j: "j < length xs" and he: "hasEndpoints (xs ! j)" and ps: "points (xs ! j) = Some ps"
  shows "\<exists>ps'. points (updateBindings xs m ! j) = Some ps' \<and> length ps' = length ps \<and>
           (\<forall>b. startBinding (xs ! j) = Some b \<and> shapeId b = m \<longrightarrow>
                  ps' ! 0 = getBoundaryPointFromAngle t (angle b)) \<and>
           (\<forall>b. endBinding (xs ! j) = Some b \<and> shapeId b = m \<longrightarrow>
                  last ps' = getBoundaryPointFromAngle t (angle b))"
proof -
  let ?P = "foldl (updateAt m) xs [0..<j]"
  let ?P1 = "updateStart ?P m j"
  let ?c = "xs ! j"
  have fr: "list_all2 sameButEndpoints xs ?P" by (rule frame_foldl_updateAt)
  have len: "j < length ?P" using fr j by (metis list_all2_lengthD)
  have len1: "j < length ?P1" using len by (simp add: updateStart_length)
  have same: "?P ! j = ?c" by (rule update_prefix_nth)
  have he': "hasEndpoints (?P ! j)" using he by (simp add: same)
  have fr1: "list_all2 sameButEndpoints xs ?P1"
    using fr frame_updateStart[OF he'] by (rule frame_trans)
  have f0: "findShape ?P m = Some t" using fr f nt by (rule frame_find_Some)
  have f1: "findShape ?P1 m = Some t" using fr1 f nt by (rule frame_find_Some)
  have n2: "2 \<le> length ps" using he ps by (simp add: hasEndpoints_def)
  then have n0: "0 < length ps" "length ps - 1 < length ps" "0 \<noteq> length ps - 1" "ps \<noteq> []"
    by auto
  have r: "updateBindings xs m ! j = updateEnd ?P1 m j ! j"
    using updateBindings_nth[OF j] he' by (simp add: updateAt_def)
  define c1 where "c1 = ?P1 ! j"
  have c1: "c1 = (case startBinding ?c of
                    None \<Rightarrow> ?c
                  | Some b \<Rightarrow> if shapeId b = m
                      then setPoint ?c 0 (getBoundaryPointFromAngle t (angle b)) else ?c)"
    unfolding c1_def by (simp add: updateStart_nth[OF len] same f0 split: option.splits)
  have c1e: "endBinding c1 = endBinding ?c" "startBinding c1 = startBinding ?c"
    by (simp_all add: c1 split: option.splits)
  have "\<exists>ps1. points c1 = Some ps1 \<and> length ps1 = length ps \<and>
    (\<forall>b. startBinding ?c = Some b \<and> shapeId b = m \<longrightarrow>
         ps1 ! 0 = getBoundaryPointFromAngle t (angle b))"
  proof (cases "startBinding ?c")
    case None
    then show ?thesis using ps by (simp add: c1)
  next
    case (Some b)
    then show ?thesis using ps n0 by (cases "shapeId b = m") (simp_all add: c1 setPoint_def)
  qed
  then obtain ps1 where ps1: "points c1 = Some ps1" "length ps1 = length ps"
    "\<forall>b. startBinding ?c = Some b \<and> shapeId b = m \<longrightarrow> ps1 ! 0 = getBoundaryPointFromAngle t (angle b)"
    by blast
  define c2 where "c2 = updateEnd ?P1 m j ! j"
  have c2: "c2 = (case endBinding c1 of
                    None \<Rightarrow> c1
                  | Some b \<Rightarrow> if shapeId b = m
                      then setPoint c1 (lastIndex c1) (getBoundaryPointFromAngle t (angle b)) else c1)"
    unfolding c2_def c1_def by (simp add: updateEnd_nth[OF len1] f1 split: option.splits)
  have li: "lastIndex c1 = length ps - 1" using ps1 by (simp add: lastIndex_def)
  have "\<exists>ps'. points c2 = Some ps' \<and> length ps' = length ps \<and> ps' ! 0 = ps1 ! 0 \<and>
           (\<forall>b. endBinding ?c = Some b \<and> shapeId b = m \<longrightarrow>
                  last ps' = getBoundaryPointFromAngle t (angle b))"
  proof (cases "endBinding ?c")
    case None
    then show ?thesis using ps1 by (simp add: c2 c1e)
  next
    case (Some b)
    then show ?thesis using ps1 n0 li
      by (cases "shapeId b = m") (auto simp: c2 c1e setPoint_def last_update_last)
  qed
  then show ?thesis using ps1(3) by (auto simp: r c2_def)
qed

subsection \<open>Floating-point arithmetic: rounding to a double\<close>

lemma roundTiesToEven_near:
  assumes "\<bar>r - of_int m\<bar> < 1 / 2"
  shows "roundTiesToEven r = m"
proof (cases "of_int m \<le> r")
  case True
  then have "\<lfloor>r\<rfloor> = m" using assms by (intro floor_unique) auto
  then show ?thesis using assms True by (simp add: roundTiesToEven_def Let_def)
next
  case False
  then have f: "\<lfloor>r\<rfloor> = m - 1" using assms by (intro floor_unique) auto
  have "1 / 2 < r - of_int (m - 1)" using assms False by auto
  then show ?thesis using f by (simp add: roundTiesToEven_def Let_def)
qed

lemma roundTiesToEven_tie:
  assumes "r = of_int f + 1 / 2"
  shows "roundTiesToEven r = (if even f then f else f + 1)"
proof -
  have "\<lfloor>r\<rfloor> = f" using assms by (intro floor_unique) auto
  then show ?thesis using assms by (simp add: roundTiesToEven_def Let_def)
qed

lemma powr_powi: "(2::real) powr real_of_int k = 2 powi k"
  by (simp add: powr_real_of_int')

lemma binade_eqI:
  assumes "2 powi e \<le> \<bar>x\<bar>" and "\<bar>x\<bar> < 2 powi (e + 1)"
  shows "binade x = e"
proof -
  have pos: "0 < \<bar>x\<bar>" using assms(1) by (smt (verit) zero_less_power_int)
  have "2 powr real_of_int e \<le> \<bar>x\<bar>" using assms(1) by (simp only: powr_powi)
  then have lo: "real_of_int e \<le> log 2 \<bar>x\<bar>"
    using le_log_iff[of 2 "\<bar>x\<bar>" "real_of_int e"] pos by simp
  have "\<bar>x\<bar> < 2 powr real_of_int (e + 1)" using assms(2) by (simp only: powr_powi)
  then have "log 2 \<bar>x\<bar> < real_of_int (e + 1)"
    using log_less_iff[of 2 "\<bar>x\<bar>" "real_of_int (e + 1)"] pos by simp
  then have hi: "log 2 \<bar>x\<bar> < real_of_int e + 1" by simp
  show ?thesis unfolding binade_def using lo hi by (rule floor_unique)
qed

lemma toDouble_eqI:
  assumes "2 powi e \<le> \<bar>x\<bar>" and "\<bar>x\<bar> < 2 powi (e + 1)"
    and "\<bar>x / 2 powi (e - 52) - of_int m\<bar> < 1 / 2"
  shows "toDouble x = of_int m * 2 powi (e - 52)"
proof -
  have b: "binade x = e" using assms(1,2) by (rule binade_eqI)
  have nz: "x \<noteq> 0" using assms(1) by (smt (verit) zero_less_power_int)
  show ?thesis using nz roundTiesToEven_near[OF assms(3)] by (simp add: toDouble_def b Let_def)
qed

lemma toDouble_tieI:
  assumes "2 powi e \<le> \<bar>x\<bar>" and "\<bar>x\<bar> < 2 powi (e + 1)"
    and "x / 2 powi (e - 52) = of_int f + 1 / 2"
  shows "toDouble x = of_int (if even f then f else f + 1) * 2 powi (e - 52)"
proof -
  have b: "binade x = e" using assms(1,2) by (rule binade_eqI)
  have nz: "x \<noteq> 0" using assms(1) by (smt (verit) zero_less_power_int)
  show ?thesis using nz roundTiesToEven_tie[OF assms(3)] by (simp add: toDouble_def b Let_def)
qed

lemma toDouble_zero: "toDouble 0 = 0"
  by (simp add: toDouble_def)

text \<open>The roundings that occur when the rectangle \<open>rectR\<close> is moved by 0.001.\<close>

lemma fl_d: "toDouble (1 / 1000) = 1152921504606847 / 1152921504606846976"
  using toDouble_eqI[of "-10" "1 / 1000" "4611686018427388"] by (simp add: power_int_minus)

lemma fl_d_again: "toDouble (1152921504606847 / 1152921504606846976) = 1152921504606847 / 1152921504606846976"
  using toDouble_eqI[of "-10" "1152921504606847 / 1152921504606846976" "4611686018427388"] by (simp add: power_int_minus)

lemma fl_five: "toDouble (5) = 5"
  using toDouble_eqI[of "2" "5" "5629499534213120"] by (simp add: power_int_minus)

lemma fl_one: "toDouble (1) = 1"
  using toDouble_eqI[of "0" "1" "4503599627370496"] by (simp add: power_int_minus)

lemma fl_tenk: "toDouble (10000) = 10000"
  using toDouble_eqI[of "13" "10000" "5497558138880000"] by (simp add: power_int_minus)

lemma fl_twok: "toDouble (2000) = 2000"
  using toDouble_eqI[of "10" "2000" "8796093022208000"] by (simp add: power_int_minus)

lemma fl_ten: "toDouble (10) = 10"
  using toDouble_eqI[of "3" "10" "5629499534213120"] by (simp add: power_int_minus)

lemma fl_tenk5: "toDouble (10005) = 10005"
  using toDouble_eqI[of "13" "10005" "5500306917949440"] by (simp add: power_int_minus)

lemma fl_cx: "toDouble (5765760444538841727 / 1152921504606846976) = 5630625434119963 / 1125899906842624"
  using toDouble_eqI[of "2" "5765760444538841727 / 1152921504606846976" "5630625434119963"] by (simp add: power_int_minus)

lemma fl_tx: "toDouble (11264629693860359963 / 1125899906842624) = 2750153733852627 / 274877906944"
  using toDouble_eqI[of "13" "11264629693860359963 / 1125899906842624" "5500307467705254"] by (simp add: power_int_minus)

lemma fl_dx: "toDouble (11258999068426240229 / 1125899906842624) = 10000"
  using toDouble_eqI[of "13" "11258999068426240229 / 1125899906842624" "5497558138880000"] by (simp add: power_int_minus)

lemma fl_scale: "toDouble (1 / 2000) = 1152921504606847 / 2305843009213693952"
  using toDouble_eqI[of "-11" "1 / 2000" "4611686018427388"] by (simp add: power_int_minus)

lemma fl_prod: "toDouble (720575940379279375 / 144115188075855872) = 5"
  using toDouble_eqI[of "2" "720575940379279375 / 144115188075855872" "5629499534213120"] by (simp add: power_int_minus)

lemma fl_nx: "toDouble (11260124968333083 / 1125899906842624) = 2815031242083271 / 281474976710656"
  using toDouble_tieI[of "3" "11260124968333083 / 1125899906842624" "5630062484166541"] by (simp add: power_int_minus)

lemma fl_ox: "toDouble (11530367967573076607 / 1152921504606846976) = 5630062484166541 / 562949953421312"
  using toDouble_eqI[of "3" "11530367967573076607 / 1152921504606846976" "5630062484166541"] by (simp add: power_int_minus)

lemmas fl_steps = toDouble_zero fl_d fl_d_again fl_five fl_one fl_tenk fl_twok fl_ten fl_tenk5
  fl_cx fl_tx fl_dx fl_scale fl_prod fl_nx fl_ox

lemma ieee_ops:
  "fadd ieee a b = toDouble (a + b)" "fsub ieee a b = toDouble (a - b)"
  "fmul ieee a b = toDouble (a * b)" "fdiv ieee a b = toDouble (a / b)"
  "Math_cos ieee t = toDouble (cos t)" "Math_sin ieee t = toDouble (sin t)"
  "Math_atan2 ieee y x = toDouble (atan2 y x)"
  by (simp_all add: ieee_def fadd_def fsub_def fmul_def fdiv_def)

lemma exact_ops:
  "fadd exact a b = a + b" "fsub exact a b = a - b"
  "fmul exact a b = a * b" "fdiv exact a b = a / b"
  "Math_cos exact t = cos t" "Math_sin exact t = sin t" "Math_atan2 exact y x = atan2 y x"
  by (simp_all add: exact_def fadd_def fsub_def fmul_def fdiv_def)

subsection \<open>The exact arithmetic gives the functions over the reals\<close>

lemma getBounds_exact: "getBounds_fp exact s = getBounds s"
  by (simp add: getBounds_fp_def getBounds_def pointsBounds_fp_def pointsBounds_def exact_ops Let_def
      split: option.splits)

lemma move_exact: "move_fp exact s dx dy = move s dx dy"
  by (simp add: move_fp_def move_def exact_ops split: option.splits)

lemma rayRect_exact:
  "rayRectFromCenter_fp exact cx cy tx ty hw hh = rayRectFromCenter cx cy tx ty hw hh"
  by (simp add: rayRectFromCenter_fp_def rayRectFromCenter_def exact_ops Let_def)

lemma rayEllipse_exact:
  "rayEllipseFromCenter_fp exact cx cy tx ty hw hh = rayEllipseFromCenter cx cy tx ty hw hh"
  by (simp add: rayEllipseFromCenter_fp_def rayEllipseFromCenter_def exact_ops Let_def)

lemma rayDiamond_exact:
  "rayDiamondFromCenter_fp exact cx cy tx ty hw hh = rayDiamondFromCenter cx cy tx ty hw hh"
  by (simp add: rayDiamondFromCenter_fp_def rayDiamondFromCenter_def exact_ops Let_def)

lemma getBoundaryPoint_exact: "getBoundaryPoint_fp exact s tx ty = getBoundaryPoint s tx ty"
  by (simp add: getBoundaryPoint_fp_def getBoundaryPoint_def getBounds_exact exact_ops
      rayRect_exact rayEllipse_exact rayDiamond_exact Let_def)

lemma getBoundaryPointFromAngle_exact:
  "getBoundaryPointFromAngle_fp exact s a = getBoundaryPointFromAngle s a"
  by (simp add: getBoundaryPointFromAngle_fp_def getBoundaryPointFromAngle_def getBounds_exact
      exact_ops getBoundaryPoint_exact Let_def)

subsection \<open>The propagation loop in any arithmetic\<close>

lemma updateStart_fp_nth:
  assumes "i < length ys"
  shows "updateStart_fp ar ys m i ! i =
           (case startBinding (ys ! i) of
              None \<Rightarrow> ys ! i
            | Some b \<Rightarrow>
                if shapeId b = m then
                  (case findShape ys m of
                     Some t \<Rightarrow> setPoint (ys ! i) 0 (getBoundaryPointFromAngle_fp ar t (angle b))
                   | None \<Rightarrow> ys ! i)
                else ys ! i)"
  using assms by (simp add: updateStart_fp_def Let_def split: option.splits)

lemma updateEnd_fp_nth:
  assumes "i < length ys"
  shows "updateEnd_fp ar ys m i ! i =
           (case endBinding (ys ! i) of
              None \<Rightarrow> ys ! i
            | Some b \<Rightarrow>
                if shapeId b = m then
                  (case findShape ys m of
                     Some t \<Rightarrow> setPoint (ys ! i) (lastIndex (ys ! i)) (getBoundaryPointFromAngle_fp ar t (angle b))
                   | None \<Rightarrow> ys ! i)
                else ys ! i)"
  using assms by (simp add: updateEnd_fp_def Let_def split: option.splits)

lemma updateStart_fp_length: "length (updateStart_fp ar xs m i) = length xs"
  by (simp add: updateStart_fp_def Let_def split: option.splits)

lemma updateEnd_fp_length: "length (updateEnd_fp ar xs m i) = length xs"
  by (simp add: updateEnd_fp_def Let_def split: option.splits)

lemma updateStart_fp_other: "j \<noteq> i \<Longrightarrow> updateStart_fp ar xs m i ! j = xs ! j"
  by (simp add: updateStart_fp_def Let_def split: option.splits)

lemma updateEnd_fp_other: "j \<noteq> i \<Longrightarrow> updateEnd_fp ar xs m i ! j = xs ! j"
  by (simp add: updateEnd_fp_def Let_def split: option.splits)

lemma updateStart_fp_beyond: "length xs \<le> i \<Longrightarrow> updateStart_fp ar xs m i = xs"
  by (simp add: updateStart_fp_def Let_def list_update_beyond split: option.splits)

lemma updateEnd_fp_beyond: "length xs \<le> i \<Longrightarrow> updateEnd_fp ar xs m i = xs"
  by (simp add: updateEnd_fp_def Let_def list_update_beyond split: option.splits)

lemma updateAt_fp_other: "j \<noteq> i \<Longrightarrow> updateAt_fp ar m xs i ! j = xs ! j"
  by (simp add: updateAt_fp_def updateStart_fp_other updateEnd_fp_other)

lemma frame_updateStart_fp:
  assumes "hasEndpoints (xs ! i)"
  shows "list_all2 sameButEndpoints xs (updateStart_fp ar xs m i)"
proof (cases "startBinding (xs ! i)")
  case None
  then show ?thesis by (simp add: updateStart_fp_def frame_refl)
next
  case (Some b)
  show ?thesis
  proof (cases "findShape xs m")
    case None
    with Some show ?thesis by (simp add: updateStart_fp_def Let_def frame_refl)
  next
    case (Some t)
    with \<open>startBinding (xs ! i) = Some b\<close> show ?thesis
      by (simp add: updateStart_fp_def Let_def frame_refl frame_update sameButEndpoints_setFirst assms)
  qed
qed

lemma frame_updateEnd_fp:
  assumes "hasEndpoints (xs ! i)"
  shows "list_all2 sameButEndpoints xs (updateEnd_fp ar xs m i)"
proof (cases "endBinding (xs ! i)")
  case None
  then show ?thesis by (simp add: updateEnd_fp_def frame_refl)
next
  case (Some b)
  show ?thesis
  proof (cases "findShape xs m")
    case None
    with Some show ?thesis by (simp add: updateEnd_fp_def Let_def frame_refl)
  next
    case (Some t)
    with \<open>endBinding (xs ! i) = Some b\<close> show ?thesis
      by (simp add: updateEnd_fp_def Let_def frame_refl frame_update sameButEndpoints_setLast assms)
  qed
qed

lemma frame_updateAt_fp: "list_all2 sameButEndpoints xs (updateAt_fp ar m xs i)"
proof (cases "hasEndpoints (xs ! i) \<and> i < length xs")
  case True
  then have he: "hasEndpoints (xs ! i)" and i: "i < length xs" by simp_all
  have "hasEndpoints (updateStart_fp ar xs m i ! i)"
    using frame_nth[OF frame_updateStart_fp[OF he, where m = m and ar = ar] i] he by (simp add: sameButEndpoints_hasEndpoints)
  then have "list_all2 sameButEndpoints (updateStart_fp ar xs m i) (updateEnd_fp ar (updateStart_fp ar xs m i) m i)"
    by (rule frame_updateEnd_fp)
  with frame_updateStart_fp[OF he]
  have "list_all2 sameButEndpoints xs (updateEnd_fp ar (updateStart_fp ar xs m i) m i)"
    by (rule frame_trans)
  then show ?thesis by (simp add: updateAt_fp_def he)
next
  case False
  then show ?thesis
    by (auto simp: updateAt_fp_def frame_refl updateStart_fp_beyond updateEnd_fp_beyond)
qed

lemma frame_foldl_updateAt_fp: "list_all2 sameButEndpoints xs (foldl (updateAt_fp ar m) xs js)"
  by (rule foldl_rel[where R = "list_all2 sameButEndpoints"])
     (auto intro: frame_refl frame_trans frame_updateAt_fp)

lemma updateBindings_fp_nth:
  assumes "j < length xs"
  shows "updateBindings_fp ar xs m ! j = updateAt_fp ar m (foldl (updateAt_fp ar m) xs [0..<j]) j ! j"
  unfolding updateBindings_fp_def
  by (rule foldl_at) (simp_all add: updateAt_fp_other assms)

lemma update_fp_prefix_nth: "foldl (updateAt_fp ar m) xs [0..<j] ! j = xs ! j"
  by (rule foldl_other) (simp_all add: updateAt_fp_other)

lemma updateBindings_fp_endpoints:
  assumes f: "findShape xs m = Some t" and nt: "\<not> hasEndpoints t"
    and j: "j < length xs" and he: "hasEndpoints (xs ! j)" and ps: "points (xs ! j) = Some ps"
  shows "\<exists>ps'. points (updateBindings_fp ar xs m ! j) = Some ps' \<and> length ps' = length ps \<and>
           (\<forall>b. startBinding (xs ! j) = Some b \<and> shapeId b = m \<longrightarrow>
                  ps' ! 0 = getBoundaryPointFromAngle_fp ar t (angle b)) \<and>
           (\<forall>b. endBinding (xs ! j) = Some b \<and> shapeId b = m \<longrightarrow>
                  last ps' = getBoundaryPointFromAngle_fp ar t (angle b))"
proof -
  let ?P = "foldl (updateAt_fp ar m) xs [0..<j]"
  let ?P1 = "updateStart_fp ar ?P m j"
  let ?c = "xs ! j"
  have fr: "list_all2 sameButEndpoints xs ?P" by (rule frame_foldl_updateAt_fp)
  have len: "j < length ?P" using fr j by (metis list_all2_lengthD)
  have len1: "j < length ?P1" using len by (simp add: updateStart_fp_length)
  have same: "?P ! j = ?c" by (rule update_fp_prefix_nth)
  have he': "hasEndpoints (?P ! j)" using he by (simp add: same)
  have fr1: "list_all2 sameButEndpoints xs ?P1"
    using fr frame_updateStart_fp[OF he'] by (rule frame_trans)
  have f0: "findShape ?P m = Some t" using fr f nt by (rule frame_find_Some)
  have f1: "findShape ?P1 m = Some t" using fr1 f nt by (rule frame_find_Some)
  have n2: "2 \<le> length ps" using he ps by (simp add: hasEndpoints_def)
  then have n0: "0 < length ps" "length ps - 1 < length ps" "0 \<noteq> length ps - 1" "ps \<noteq> []"
    by auto
  have r: "updateBindings_fp ar xs m ! j = updateEnd_fp ar ?P1 m j ! j"
    using updateBindings_fp_nth[OF j] he' by (simp add: updateAt_fp_def)
  define c1 where "c1 = ?P1 ! j"
  have c1: "c1 = (case startBinding ?c of
                    None \<Rightarrow> ?c
                  | Some b \<Rightarrow> if shapeId b = m
                      then setPoint ?c 0 (getBoundaryPointFromAngle_fp ar t (angle b)) else ?c)"
    unfolding c1_def by (simp add: updateStart_fp_nth[OF len] same f0 split: option.splits)
  have c1e: "endBinding c1 = endBinding ?c" "startBinding c1 = startBinding ?c"
    by (simp_all add: c1 split: option.splits)
  have "\<exists>ps1. points c1 = Some ps1 \<and> length ps1 = length ps \<and>
    (\<forall>b. startBinding ?c = Some b \<and> shapeId b = m \<longrightarrow>
         ps1 ! 0 = getBoundaryPointFromAngle_fp ar t (angle b))"
  proof (cases "startBinding ?c")
    case None
    then show ?thesis using ps by (simp add: c1)
  next
    case (Some b)
    then show ?thesis using ps n0 by (cases "shapeId b = m") (simp_all add: c1 setPoint_def)
  qed
  then obtain ps1 where ps1: "points c1 = Some ps1" "length ps1 = length ps"
    "\<forall>b. startBinding ?c = Some b \<and> shapeId b = m \<longrightarrow> ps1 ! 0 = getBoundaryPointFromAngle_fp ar t (angle b)"
    by blast
  define c2 where "c2 = updateEnd_fp ar ?P1 m j ! j"
  have c2: "c2 = (case endBinding c1 of
                    None \<Rightarrow> c1
                  | Some b \<Rightarrow> if shapeId b = m
                      then setPoint c1 (lastIndex c1) (getBoundaryPointFromAngle_fp ar t (angle b)) else c1)"
    unfolding c2_def c1_def by (simp add: updateEnd_fp_nth[OF len1] f1 split: option.splits)
  have li: "lastIndex c1 = length ps - 1" using ps1 by (simp add: lastIndex_def)
  have "\<exists>ps'. points c2 = Some ps' \<and> length ps' = length ps \<and> ps' ! 0 = ps1 ! 0 \<and>
           (\<forall>b. endBinding ?c = Some b \<and> shapeId b = m \<longrightarrow>
                  last ps' = getBoundaryPointFromAngle_fp ar t (angle b))"
  proof (cases "endBinding ?c")
    case None
    then show ?thesis using ps1 by (simp add: c2 c1e)
  next
    case (Some b)
    then show ?thesis using ps1 n0 li
      by (cases "shapeId b = m") (auto simp: c2 c1e setPoint_def last_update_last)
  qed
  then show ?thesis using ps1(3) by (auto simp: r c2_def)
qed

lemma move_fp_no_points:
  "points s = None \<Longrightarrow>
   move_fp ar s dx dy = s\<lparr> sx := fadd ar (sx s) dx, sy := fadd ar (sy s) dy \<rparr>"
  by (simp add: move_fp_def)

lemma rectR_fields:
  "sid rectR = ''R''" "stype rectR = ''rectangle''" "points rectR = None"
  "sx rectR = 0" "sy rectR = 0" "width rectR = 10" "height rectR = 10"
  by (simp_all add: rectR_def create_def)

lemma arrowR_fields:
  "sid arrowR = ''L''" "stype arrowR = ''arrow''"
  "points arrowR = Some [\<lparr> pt_x = 10, pt_y = 5 \<rparr>, \<lparr> pt_x = 30, pt_y = 5 \<rparr>]"
  "startBinding arrowR = Some \<lparr> shapeId = ''R'', angle = 0 \<rparr>" "endBinding arrowR = None"
  by (simp_all add: arrowR_def create_def)

lemma movedR:
  "move_fp ieee rectR (1152921504606847 / 1152921504606846976) 0 =
     rectR\<lparr> sx := 1152921504606847 / 1152921504606846976, sy := 0 \<rparr>"
  by (simp add: move_fp_def rectR_fields ieee_ops fl_steps)

lemma resolved_before:
  "getBoundaryPointFromAngle_fp ieee rectR 0 = \<lparr> pt_x = 10, pt_y = 5 \<rparr>"
  by (simp add: getBoundaryPointFromAngle_fp_def getBoundaryPoint_fp_def getBounds_fp_def
      storedBox_def rectR_fields rectCases_def rayRectFromCenter_fp_def Let_def ieee_ops fl_steps)

lemma resolved_after:
  "getBoundaryPointFromAngle_fp ieee
     (rectR\<lparr> sx := 1152921504606847 / 1152921504606846976, sy := 0 \<rparr>) 0 =
   \<lparr> pt_x = 2815031242083271 / 281474976710656, pt_y = 5 \<rparr>"
  by (simp add: getBoundaryPointFromAngle_fp_def getBoundaryPoint_fp_def getBounds_fp_def
      storedBox_def rectR_fields rectCases_def rayRectFromCenter_fp_def Let_def ieee_ops fl_steps)

text \<open>
  C4 as stated fails in the arithmetic of the source. The rectangle \<open>rectR\<close> has
  the box (0, 0, 10, 10) and the arrow \<open>arrowR\<close> starts at (10, 5), the point
  resolved for its binding to \<open>rectR\<close> at angle 0. After \<open>rectR\<close> is moved by the
  double 0.001 to the right, the arrow starts at \<open>x = 5630062484166542 / 2\<^sup>4\<^sup>9\<close>
  (printed 10.001000000000001). That is neither the sum of 10 and the delta
  in doubles, \<open>5630062484166541 / 2\<^sup>4\<^sup>9\<close> (printed 10.001), nor their exact sum.
\<close>

theorem translation_rounding_counterexample:
  "points arrowR = Some [getBoundaryPointFromAngle_fp ieee rectR 0, \<lparr> pt_x = 30, pt_y = 5 \<rparr>] \<and>
   getBoundaryPointFromAngle_fp ieee rectR 0 = \<lparr> pt_x = 10, pt_y = 5 \<rparr> \<and>
   points (updateBindings_fp ieee ([rectR, arrowR][0 := move_fp ieee rectR (toDouble (1 / 1000)) 0])
             ''R'' ! 1) =
     Some [\<lparr> pt_x = 5630062484166542 / 2 ^ 49, pt_y = 5 \<rparr>, \<lparr> pt_x = 30, pt_y = 5 \<rparr>] \<and>
   fadd ieee 10 (toDouble (1 / 1000)) = 5630062484166541 / 2 ^ 49 \<and>
   10 + toDouble (1 / 1000) \<noteq> 5630062484166542 / 2 ^ 49"
  by (simp add: movedR resolved_before resolved_after updateBindings_fp_def updateAt_fp_def
      updateStart_fp_def updateEnd_fp_def hasEndpoints_def findShape_def setPoint_def lastIndex_def
      rectR_fields arrowR_fields Let_def ieee_ops fl_steps)

text \<open>
  C4, amended. Let \<open>xs\<close> be a shape list with unique ids, \<open>xs ! k\<close> a container shape
  (a type of \<open>CONTAINER_TYPES\<close>, no point list, positive width and height)
  and \<open>xs ! j\<close> a line or arrow with two or more points. After the container is
  moved by \<open>(dx, dy)\<close> and \<open>updateBindings\<close> is called with its id, in whatever
  arithmetic, an endpoint of the connector that is bound to the container at
  an angle is the boundary point resolved for that angle on the moved
  container. In exact arithmetic, if the endpoint rested at the boundary point
  resolved for the angle before the move, it has moved by exactly \<open>(dx, dy)\<close>.
  This holds for the start and for the end, and for every boundary family.
\<close>

theorem translation_reresolved:
  assumes ids: "distinct (map sid xs)" and k: "k < length xs"
    and ty: "stype (xs ! k) \<in> set CONTAINER_TYPES" and np: "points (xs ! k) = None"
    and pos: "0 < width (xs ! k)" "0 < height (xs ! k)"
    and j: "j < length xs" and he: "hasEndpoints (xs ! j)" and ps: "points (xs ! j) = Some ps"
  shows "\<exists>ps'. points (updateBindings_fp ar (xs[k := move_fp ar (xs ! k) dx dy]) (sid (xs ! k)) ! j)
                 = Some ps' \<and>
           length ps' = length ps \<and>
           (\<forall>b. startBinding (xs ! j) = Some b \<and> shapeId b = sid (xs ! k) \<longrightarrow>
                 ps' ! 0 = getBoundaryPointFromAngle_fp ar (move_fp ar (xs ! k) dx dy) (angle b) \<and>
                 (ar = exact \<and> ps ! 0 = getBoundaryPointFromAngle_fp ar (xs ! k) (angle b) \<longrightarrow>
                    ps' ! 0 = \<lparr> pt_x = pt_x (ps ! 0) + dx, pt_y = pt_y (ps ! 0) + dy \<rparr>)) \<and>
           (\<forall>b. endBinding (xs ! j) = Some b \<and> shapeId b = sid (xs ! k) \<longrightarrow>
                 last ps' = getBoundaryPointFromAngle_fp ar (move_fp ar (xs ! k) dx dy) (angle b) \<and>
                 (ar = exact \<and> last ps = getBoundaryPointFromAngle_fp ar (xs ! k) (angle b) \<longrightarrow>
                    last ps' = \<lparr> pt_x = pt_x (last ps) + dx, pt_y = pt_y (last ps) + dy \<rparr>))"
proof -
  let ?S = "xs ! k"
  let ?S' = "move_fp ar ?S dx dy"
  let ?xs' = "xs[k := ?S']"
  have mv: "?S' = ?S\<lparr> sx := fadd ar (sx ?S) dx, sy := fadd ar (sy ?S) dy \<rparr>"
    using np by (rule move_fp_no_points)
  have sid': "sid ?S' = sid ?S" and ty': "stype ?S' = stype ?S" by (simp_all add: mv)
  have nhe: "\<not> hasEndpoints ?S" using ty by (rule container_not_connector)
  have nhe': "\<not> hasEndpoints ?S'" using ty' ty container_not_connector by metis
  have jk: "j \<noteq> k" using he nhe by auto
  have sids: "map sid ?xs' = map sid xs"
  proof -
    have "(map sid xs)[k := map sid xs ! k] = map sid xs" by (rule list_update_id)
    then show ?thesis using k by (simp add: map_update sid')
  qed
  have nth_k: "?xs' ! k = ?S'" using k by simp
  have nth_j: "?xs' ! j = xs ! j" using jk by simp
  have "findShape ?xs' (sid (?xs' ! k)) = Some (?xs' ! k)"
    by (rule findShape_distinct) (simp_all add: sids ids k)
  then have f: "findShape ?xs' (sid ?S) = Some ?S'" by (simp add: nth_k sid')
  have j': "j < length ?xs'" using j by simp
  have he': "hasEndpoints (?xs' ! j)" using he by (simp add: nth_j)
  have ps': "points (?xs' ! j) = Some ps" using ps by (simp add: nth_j)
  from updateBindings_fp_endpoints[OF f nhe' j' he' ps', where ar = ar]
  obtain qs where qs: "points (updateBindings_fp ar ?xs' (sid ?S) ! j) = Some qs" "length qs = length ps"
    "\<forall>b. startBinding (xs ! j) = Some b \<and> shapeId b = sid ?S \<longrightarrow>
                  qs ! 0 = getBoundaryPointFromAngle_fp ar ?S' (angle b)"
    "\<forall>b. endBinding (xs ! j) = Some b \<and> shapeId b = sid ?S \<longrightarrow>
                  last qs = getBoundaryPointFromAngle_fp ar ?S' (angle b)"
    by (auto simp: nth_j)
  have ex: "\<And>a. getBoundaryPointFromAngle_fp exact (move_fp exact ?S dx dy) a =
              \<lparr> pt_x = pt_x (getBoundaryPointFromAngle_fp exact ?S a) + dx,
                pt_y = pt_y (getBoundaryPointFromAngle_fp exact ?S a) + dy \<rparr>"
    by (simp add: getBoundaryPointFromAngle_exact move_exact getBoundaryPointFromAngle_move[OF np])
  show ?thesis
    using qs ex by (intro exI[of _ qs]) auto
qed

subsection \<open>The nearest boundary point\<close>





subsection \<open>Evaluation of the end-to-end scenario\<close>

lemma distance_horizontal: "distance x y x' y = \<bar>x' - x\<bar>"
  by (simp add: distance_def)

lemma toolsAB_fields:
  "getShapes toolsAB = [rectA, rectB]" "heap toolsAB 0 = [rectA, rectB]"
  "currentTool toolsAB = ''arrow''" "nextAddr toolsAB = 1" "undoStack toolsAB = []"
  "curStrokeColor toolsAB = ''#1e1e1e''" "curStrokeWidth toolsAB = 0.5"
  "curStrokeDash toolsAB = ''solid''" "shapesRef toolsAB = 0"
  "pendingShapeLabel toolsAB = None" "editingTextShape toolsAB = None"
  "editingInShapeRef toolsAB = None"
  by (simp_all add: toolsAB_def getShapes_def mutate_def initialTools_def)

lemma bpA: "getBoundaryPoint rectA 95 50 = \<lparr> pt_x = 100, pt_y = 50 \<rparr>"
  by (simp add: getBoundaryPoint_def getBounds_def storedBox_def rect_fields rectCases_def
      rayRectFromCenter_def Let_def)

lemma bpB: "getBoundaryPoint rectB 95 50 = \<lparr> pt_x = 300, pt_y = 50 \<rparr>"
  by (simp add: getBoundaryPoint_def getBounds_def storedBox_def rect_fields rectCases_def
      rayRectFromCenter_def Let_def)

lemma bpB2: "getBoundaryPoint rectB 305 50 = \<lparr> pt_x = 300, pt_y = 50 \<rparr>"
  by (simp add: getBoundaryPoint_def getBounds_def storedBox_def rect_fields rectCases_def
      rayRectFromCenter_def Let_def)

lemma angA: "angleFromCenter rectA \<lparr> pt_x = 100, pt_y = 50 \<rparr> = 0"
  by (simp add: angleFromCenter_def getBounds_def storedBox_def rect_fields atan2_def Let_def)

lemma angB: "angleFromCenter rectB \<lparr> pt_x = 300, pt_y = 50 \<rparr> = pi"
  by (simp add: angleFromCenter_def getBounds_def storedBox_def rect_fields atan2_def Let_def)

lemma snap1: "findNearestBoundaryPoint [rectA, rectB] 95 50 [] =
   Some \<lparr> snapShapeId = ''A'', snapAngle = 0, snapX = 100, snapY = 50 \<rparr>"
  by (simp add: findNearestBoundaryPoint_def nearestStep_def SNAP_DISTANCE_def rect_fields
      bpA bpB angA distance_horizontal Let_def)

lemma snap2: "findNearestBoundaryPoint [rectA, rectB] 305 50 [''A''] =
   Some \<lparr> snapShapeId = ''B'', snapAngle = pi, snapX = 300, snapY = 50 \<rparr>"
  by (simp add: findNearestBoundaryPoint_def nearestStep_def SNAP_DISTANCE_def rect_fields
      bpB2 angB distance_horizontal Let_def)

lemma down: "onPointerDown ''C'' 3 \<lparr> pt_x = 95, pt_y = 50 \<rparr> toolsAB =
   Some (toolsAB\<lparr> dragStartWorld := Some \<lparr> pt_x = 95, pt_y = 50 \<rparr>,
                   drawingShape := Some (arrowAB\<lparr> points := Some [\<lparr> pt_x = 100, pt_y = 50 \<rparr>, \<lparr> pt_x = 100, pt_y = 50 \<rparr>],
                                                   endBinding := None \<rparr>),
                   isDragging := True, dragType := Some ''draw'' \<rparr>)"
  by (simp add: onPointerDown_def toolsAB_fields getShapes_def snap1 boxCases_def Let_def
      arrowAB_def create_def)

lemma move1: "handleDrawMove \<lparr> pt_x = 305, pt_y = 50 \<rparr>
     (toolsAB\<lparr> dragStartWorld := Some \<lparr> pt_x = 95, pt_y = 50 \<rparr>,
                   drawingShape := Some (arrowAB\<lparr> points := Some [\<lparr> pt_x = 100, pt_y = 50 \<rparr>, \<lparr> pt_x = 100, pt_y = 50 \<rparr>],
                                                   endBinding := None \<rparr>),
                   isDragging := True, dragType := Some ''draw'' \<rparr>) =
   Inr (toolsAB\<lparr> dragStartWorld := Some \<lparr> pt_x = 95, pt_y = 50 \<rparr>,
                   drawingShape := Some (arrowAB\<lparr> endBinding := None,
                      hoverSnap := Some \<lparr> snapShapeId = ''B'', snapAngle = pi, snapX = 300, snapY = 50 \<rparr> \<rparr>),
                   isDragging := True, dragType := Some ''draw'' \<rparr>)"
  by (simp add: handleDrawMove_def toolsAB_fields getShapes_def snap2 boxCases_def Let_def
      setSecondPoint_def arrowAB_fields)

lemma small1: "tooSmall (arrowAB\<lparr> endBinding := None,
                      hoverSnap := Some \<lparr> snapShapeId = ''B'', snapAngle = pi, snapX = 300, snapY = 50 \<rparr> \<rparr>) = Inr False"
  by (simp add: tooSmall_def arrowAB_fields CONTAINER_TYPES_def distance_horizontal)

lemma final1: "finalizeShape None (arrowAB\<lparr> endBinding := None,
                      hoverSnap := Some \<lparr> snapShapeId = ''B'', snapAngle = pi, snapX = 300, snapY = 50 \<rparr> \<rparr>) = arrowAB"
  by (simp add: finalizeShape_def arrowAB_fields Let_def) (simp add: arrowAB_def create_def)

lemma up1: "\<exists>st. onPointerUpDraw \<lparr> pt_x = 305, pt_y = 50 \<rparr>
     (toolsAB\<lparr> dragStartWorld := Some \<lparr> pt_x = 95, pt_y = 50 \<rparr>,
                   drawingShape := Some (arrowAB\<lparr> endBinding := None,
                      hoverSnap := Some \<lparr> snapShapeId = ''B'', snapAngle = pi, snapX = 300, snapY = 50 \<rparr> \<rparr>),
                   isDragging := True, dragType := Some ''draw'' \<rparr>) = Inr st \<and>
     getShapes st = [rectA, rectB, arrowAB] \<and> selectedIds st = {''C''} \<and> currentTool st = ''select''"
  by (simp add: onPointerUpDraw_def finishDraw_def small1 final1 toolsAB_fields Let_def
      setTool_def finishTextEditing_def pushShape_def mutate_def push_def deepClone_def
      allocArray_def getShapes_def arrowAB_fields MAX_STACK_def)

subsection \<open>Claims on drawing, snapping and boundary angles\<close>

lemma gbpfaA0: "getBoundaryPointFromAngle rectA 0 = \<lparr> pt_x = 100, pt_y = 50 \<rparr>"
  by (simp add: getBoundaryPointFromAngle_def getBoundaryPoint_def getBounds_def storedBox_def
      rect_fields rectCases_def rayRectFromCenter_def Let_def)

lemma movedA_fields:
  "sid (move rectA 0 200) = ''A''" "stype (move rectA 0 200) = ''rectangle''"
  "points (move rectA 0 200) = None"
  "sx (move rectA 0 200) = 0" "sy (move rectA 0 200) = 200"
  "width (move rectA 0 200) = 100" "height (move rectA 0 200) = 100"
  by (simp_all add: move_def rect_fields)

lemma moved_points:
  "points (updateBindings ([rectA, rectB, arrowAB][0 := move rectA 0 200]) ''A'' ! 2) =
     Some [\<lparr> pt_x = 100, pt_y = 250 \<rparr>, \<lparr> pt_x = 300, pt_y = 50 \<rparr>]"
  by (simp add: eval_defs movedA_fields rect_fields arrowAB_fields numeral_3_eq_3)

text \<open>
  C2. With rectangles A (box (0, 0, 100, 100)) and B (box (300, 0, 100, 100)) on
  the canvas and the arrow tool chosen, pressing at (95, 50), moving to (305, 50)
  and releasing there commits an arrow whose start is bound to A and whose end is
  bound to B, with endpoints exactly (100, 50) and (300, 50). After A is moved to
  (0, 200) and \<open>updateBindings\<close> is called with A's id, the arrow starts exactly at
  (100, 250).
\<close>

theorem end_to_end_scenario:
  "\<exists>st. drawGesture ''C'' 3 \<lparr> pt_x = 95, pt_y = 50 \<rparr> \<lparr> pt_x = 305, pt_y = 50 \<rparr> toolsAB = Inr st \<and>
        getShapes st = [rectA, rectB, arrowAB] \<and>
        startBinding arrowAB = Some \<lparr> shapeId = sid rectA, angle = 0 \<rparr> \<and>
        endBinding arrowAB = Some \<lparr> shapeId = sid rectB, angle = pi \<rparr> \<and>
        points arrowAB = Some [\<lparr> pt_x = 100, pt_y = 50 \<rparr>, \<lparr> pt_x = 300, pt_y = 50 \<rparr>] \<and>
        points (updateBindings ([rectA, rectB, arrowAB][0 := move rectA 0 200]) (sid rectA) ! 2) =
          Some [\<lparr> pt_x = 100, pt_y = 250 \<rparr>, \<lparr> pt_x = 300, pt_y = 50 \<rparr>]"
proof -
  from up1 obtain st where st:
    "onPointerUpDraw \<lparr> pt_x = 305, pt_y = 50 \<rparr>
       (toolsAB\<lparr> dragStartWorld := Some \<lparr> pt_x = 95, pt_y = 50 \<rparr>,
                   drawingShape := Some (arrowAB\<lparr> endBinding := None,
                      hoverSnap := Some \<lparr> snapShapeId = ''B'', snapAngle = pi, snapX = 300, snapY = 50 \<rparr> \<rparr>),
                   isDragging := True, dragType := Some ''draw'' \<rparr>) = Inr st"
    "getShapes st = [rectA, rectB, arrowAB]"
    by blast
  have "drawGesture ''C'' 3 \<lparr> pt_x = 95, pt_y = 50 \<rparr> \<lparr> pt_x = 305, pt_y = 50 \<rparr> toolsAB = Inr st"
    by (simp add: drawGesture_def down move1 st(1))
  moreover have "points (updateBindings ([rectA, rectB, arrowAB][0 := move rectA 0 200]) (sid rectA) ! 2) =
          Some [\<lparr> pt_x = 100, pt_y = 250 \<rparr>, \<lparr> pt_x = 300, pt_y = 50 \<rparr>]"
    using moved_points by (simp add: rect_fields)
  ultimately show ?thesis
    using st(2) by (intro exI[of _ st]) (simp add: arrowAB_fields rect_fields)
qed

text \<open>
  In exact arithmetic, the arrow bound to A at angle 0 follows A by (7, 200).
  In IEEE arithmetic, the arrow bound to \<open>rectR\<close> at angle 0 starts, after
  \<open>rectR\<close> is moved by the double 0.001, at the point resolved on the moved
  rectangle.
\<close>

theorem translation_reresolved_witness:
  "distinct (map sid [rectA, rectB, arrowAB]) \<and> (0::nat) < length [rectA, rectB, arrowAB] \<and>
   stype ([rectA, rectB, arrowAB] ! 0) \<in> set CONTAINER_TYPES \<and>
   points ([rectA, rectB, arrowAB] ! 0) = None \<and>
   0 < width ([rectA, rectB, arrowAB] ! 0) \<and> 0 < height ([rectA, rectB, arrowAB] ! 0) \<and>
   (2::nat) < length [rectA, rectB, arrowAB] \<and> hasEndpoints ([rectA, rectB, arrowAB] ! 2) \<and>
   startBinding ([rectA, rectB, arrowAB] ! 2) = Some \<lparr> shapeId = ''A'', angle = 0 \<rparr> \<and>
   \<lparr> pt_x = 100, pt_y = 50 \<rparr> = getBoundaryPointFromAngle_fp exact ([rectA, rectB, arrowAB] ! 0) 0 \<and>
   (\<exists>ps'. points (updateBindings_fp exact ([rectA, rectB, arrowAB][0 := move_fp exact rectA 7 200])
                    ''A'' ! 2) = Some ps' \<and>
          ps' ! 0 = getBoundaryPointFromAngle_fp exact (move_fp exact rectA 7 200) 0 \<and>
          ps' ! 0 = \<lparr> pt_x = 107, pt_y = 250 \<rparr>) \<and>
   distinct (map sid [rectR, arrowR]) \<and> (0::nat) < length [rectR, arrowR] \<and>
   stype ([rectR, arrowR] ! 0) \<in> set CONTAINER_TYPES \<and> points ([rectR, arrowR] ! 0) = None \<and>
   0 < width ([rectR, arrowR] ! 0) \<and> 0 < height ([rectR, arrowR] ! 0) \<and>
   (1::nat) < length [rectR, arrowR] \<and> hasEndpoints ([rectR, arrowR] ! 1) \<and>
   startBinding ([rectR, arrowR] ! 1) = Some \<lparr> shapeId = ''R'', angle = 0 \<rparr> \<and>
   (\<exists>qs. points (updateBindings_fp ieee ([rectR, arrowR][0 := move_fp ieee rectR (toDouble (1 / 1000)) 0])
                    ''R'' ! 1) = Some qs \<and>
          qs ! 0 = getBoundaryPointFromAngle_fp ieee (move_fp ieee rectR (toDouble (1 / 1000)) 0) 0 \<and>
          qs ! 0 = \<lparr> pt_x = 5630062484166542 / 2 ^ 49, pt_y = 5 \<rparr>)"
proof -
  let ?xs = "[rectA, rectB, arrowAB]"
  let ?ps = "[\<lparr> pt_x = 100, pt_y = 50 \<rparr>, \<lparr> pt_x = 300, pt_y = (50::real) \<rparr>]"
  have h1: "distinct (map sid ?xs)" by (simp add: rect_fields arrowAB_fields)
  have h2: "(0::nat) < length ?xs" by simp
  have h3: "stype (?xs ! 0) \<in> set CONTAINER_TYPES" by (simp add: rect_fields CONTAINER_TYPES_def)
  have h4: "points (?xs ! 0) = None" by (simp add: rect_fields)
  have h5: "0 < width (?xs ! 0)" "0 < height (?xs ! 0)" by (simp_all add: rect_fields)
  have h6: "(2::nat) < length ?xs" by simp
  have h7: "hasEndpoints (?xs ! 2)" by (simp add: hasEndpoints_def arrowAB_fields)
  have h8: "points (?xs ! 2) = Some ?ps" by (simp add: arrowAB_fields)
  have h9: "startBinding (?xs ! 2) = Some \<lparr> shapeId = ''A'', angle = 0 \<rparr>"
    by (simp add: arrowAB_fields)
  have h10: "\<lparr> pt_x = 100, pt_y = 50 \<rparr> = getBoundaryPointFromAngle_fp exact (?xs ! 0) 0"
    by (simp add: getBoundaryPointFromAngle_exact gbpfaA0)
  from translation_reresolved[OF h1 h2 h3 h4 h5 h6 h7 h8, where ar = exact and dx = 7 and dy = 200]
  obtain ps' where ps':
    "points (updateBindings_fp exact (?xs[0 := move_fp exact (?xs ! 0) 7 200]) (sid (?xs ! 0)) ! 2)
       = Some ps'"
    "\<forall>b. startBinding (?xs ! 2) = Some b \<and> shapeId b = sid (?xs ! 0) \<longrightarrow>
         ps' ! 0 = getBoundaryPointFromAngle_fp exact (move_fp exact (?xs ! 0) 7 200) (angle b) \<and>
         (exact = exact \<and> ?ps ! 0 = getBoundaryPointFromAngle_fp exact (?xs ! 0) (angle b) \<longrightarrow>
            ps' ! 0 = \<lparr> pt_x = pt_x (?ps ! 0) + 7, pt_y = pt_y (?ps ! 0) + 200 \<rparr>)"
    by blast
  from ps'(2) h9 have r1: "ps' ! 0 = getBoundaryPointFromAngle_fp exact (move_fp exact rectA 7 200) 0"
    by (simp add: rect_fields)
  from ps'(2) h9 h10[symmetric] have r2: "ps' ! 0 = \<lparr> pt_x = 107, pt_y = 250 \<rparr>"
    by (auto simp: rect_fields)
  from ps'(1) have r0:
    "points (updateBindings_fp exact (?xs[0 := move_fp exact rectA 7 200]) ''A'' ! 2) = Some ps'"
    by (simp add: rect_fields)
  from r0 r1 r2 have A: "\<exists>ps'. points (updateBindings_fp exact (?xs[0 := move_fp exact rectA 7 200]) ''A'' ! 2)
                            = Some ps' \<and>
          ps' ! 0 = getBoundaryPointFromAngle_fp exact (move_fp exact rectA 7 200) 0 \<and>
          ps' ! 0 = \<lparr> pt_x = 107, pt_y = 250 \<rparr>"
    by blast
  let ?ys = "[rectR, arrowR]"
  let ?qs = "[\<lparr> pt_x = 10, pt_y = 5 \<rparr>, \<lparr> pt_x = 30, pt_y = (5::real) \<rparr>]"
  let ?d = "toDouble (1 / 1000)"
  have g1: "distinct (map sid ?ys)" by (simp add: rectR_fields arrowR_fields)
  have g2: "(0::nat) < length ?ys" by simp
  have g3: "stype (?ys ! 0) \<in> set CONTAINER_TYPES" by (simp add: rectR_fields CONTAINER_TYPES_def)
  have g4: "points (?ys ! 0) = None" by (simp add: rectR_fields)
  have g5: "0 < width (?ys ! 0)" "0 < height (?ys ! 0)" by (simp_all add: rectR_fields)
  have g6: "(1::nat) < length ?ys" by simp
  have g7: "hasEndpoints (?ys ! 1)" by (simp add: hasEndpoints_def arrowR_fields)
  have g8: "points (?ys ! 1) = Some ?qs" by (simp add: arrowR_fields)
  have g9: "startBinding (?ys ! 1) = Some \<lparr> shapeId = ''R'', angle = 0 \<rparr>"
    by (simp add: arrowR_fields)
  from translation_reresolved[OF g1 g2 g3 g4 g5 g6 g7 g8, where ar = ieee and dx = ?d and dy = 0]
  obtain qs where qs:
    "points (updateBindings_fp ieee (?ys[0 := move_fp ieee (?ys ! 0) ?d 0]) (sid (?ys ! 0)) ! 1)
       = Some qs"
    "\<forall>b. startBinding (?ys ! 1) = Some b \<and> shapeId b = sid (?ys ! 0) \<longrightarrow>
         qs ! 0 = getBoundaryPointFromAngle_fp ieee (move_fp ieee (?ys ! 0) ?d 0) (angle b)"
    by blast
  from qs(2) g9 have s1: "qs ! 0 = getBoundaryPointFromAngle_fp ieee (move_fp ieee rectR ?d 0) 0"
    by (simp add: rectR_fields)
  have "getBoundaryPointFromAngle_fp ieee (move_fp ieee rectR ?d 0) 0 =
          \<lparr> pt_x = 5630062484166542 / 2 ^ 49, pt_y = 5 \<rparr>"
    by (simp add: fl_d movedR resolved_after)
  with s1 have s2: "qs ! 0 = \<lparr> pt_x = 5630062484166542 / 2 ^ 49, pt_y = 5 \<rparr>" by simp
  from qs(1) have s0:
    "points (updateBindings_fp ieee (?ys[0 := move_fp ieee rectR ?d 0]) ''R'' ! 1) = Some qs"
    by (simp add: rectR_fields)
  from s0 s1 s2 have B: "\<exists>qs. points (updateBindings_fp ieee (?ys[0 := move_fp ieee rectR ?d 0]) ''R'' ! 1)
                            = Some qs \<and>
          qs ! 0 = getBoundaryPointFromAngle_fp ieee (move_fp ieee rectR ?d 0) 0 \<and>
          qs ! 0 = \<lparr> pt_x = 5630062484166542 / 2 ^ 49, pt_y = 5 \<rparr>"
    by blast
  from h1 h2 h3 h4 h5 h6 h7 h9 h10 A g1 g2 g3 g4 g5 g6 g7 g9 B show ?thesis by blast
qed











lemma ellipseE_fields:
  "stype ellipseE = ''ellipse''" "points ellipseE = None"
  "sx ellipseE = 0" "sy ellipseE = 0" "width ellipseE = 4" "height ellipseE = 2"
  by (simp_all add: ellipseE_def create_def)

lemma atan2_pos: "0 < x \<Longrightarrow> atan2 y x = arctan (y / x)"
  by (simp add: atan2_def)

lemma ellipse_point:
  "getBoundaryPointFromAngle ellipseE (pi / 4) = \<lparr> pt_x = 2 + sqrt 2, pt_y = 1 + sqrt 2 / 2 \<rparr>"
  by (simp add: getBoundaryPointFromAngle_def getBoundaryPoint_def getBounds_def storedBox_def
      ellipseE_fields rectCases_def ellipseCases_def rayEllipseFromCenter_def Let_def
      cos_45 sin_45 atan2_pos arctan_one)

text \<open>
  C1 fails on the code. For the ellipse with box (0, 0, 4, 2) and the angle
  \<open>\<pi>/4\<close>, \<open>getBoundaryPointFromAngle\<close> returns \<open>(2 + \<surd>2, 1 + \<surd>2/2)\<close>, whose
  direction from the centre \<open>(2, 1)\<close> is \<open>arctan (1/2)\<close>. That angle lies strictly
  between \<open>\<pi>/4 - 2\<pi>\<close> and \<open>\<pi>/4\<close>, so it is not congruent to \<open>\<pi>/4\<close> modulo
  \<open>2\<pi>\<close>: the ellipse branch takes the stored angle as the parameter of the
  ellipse, not as the direction of the ray.
\<close>

theorem ellipse_angle_drift:
  "0 < width ellipseE \<and> 0 < height ellipseE \<and> stype ellipseE \<in> set ellipseCases \<and>
   getBoundaryPointFromAngle ellipseE (pi / 4) = \<lparr> pt_x = 2 + sqrt 2, pt_y = 1 + sqrt 2 / 2 \<rparr> \<and>
   angleFromCenter ellipseE (getBoundaryPointFromAngle ellipseE (pi / 4)) = arctan (1 / 2) \<and>
   pi / 4 - 2 * pi < arctan (1 / 2) \<and> arctan (1 / 2) < pi / 4"
proof -
  have a: "angleFromCenter ellipseE (getBoundaryPointFromAngle ellipseE (pi / 4)) = arctan (1 / 2)"
    by (simp add: ellipse_point angleFromCenter_def getBounds_def storedBox_def ellipseE_fields
        Let_def atan2_pos)
  have "arctan (1 / 2) < arctan 1" by (simp add: arctan_less_iff)
  then have u: "arctan (1 / 2) < pi / 4" by (simp add: arctan_one)
  have "0 < arctan (1 / 2)" by simp
  moreover have "pi / 4 - 2 * pi < 0" using pi_gt_zero by simp
  ultimately have l: "pi / 4 - 2 * pi < arctan (1 / 2)" by linarith
  show ?thesis using a u l by (simp add: ellipse_point ellipseE_fields ellipseCases_def)
qed

subsection \<open>The angle of a boundary point: rectangle and diamond families\<close>

text \<open>
  For the rectangle and diamond families the boundary point lies on the ray:
  the angle from the centre to \<open>getBoundaryPointFromAngle s t\<close> is \<open>t\<close> up to a
  multiple of \<open>2\<pi>\<close>. The elliptical family is the exception shown above.
\<close>

lemma atan2_scale: "0 < r \<Longrightarrow> atan2 (r * y) (r * x) = atan2 y x"
  by (simp add: atan2_def zero_less_mult_iff mult_less_0_iff zero_le_mult_iff)

lemma atan2_sin_cos_principal:
  assumes "- pi < p" "p \<le> pi"
  shows "atan2 (sin p) (cos p) = p"
proof -
  consider (a) "- pi / 2 < p \<and> p < pi / 2" | (b) "pi / 2 < p" | (c) "p < - pi / 2"
    | (d) "p = pi / 2" | (e) "p = - pi / 2"
    by linarith
  then show ?thesis
  proof cases
    case a
    then have c: "0 < cos p" by (simp add: cos_gt_zero_pi)
    have "arctan (tan p) = p" using a by (simp add: arctan_tan)
    then show ?thesis using c by (simp add: atan2_def tan_def)
  next
    case b
    have "0 < cos (p - pi)" using b assms by (intro cos_gt_zero_pi) simp_all
    then have c: "cos p < 0" by (simp add: cos_diff)
    have s: "0 \<le> sin p" using b assms pi_gt_zero by (intro sin_ge_zero) linarith+
    have t: "tan (p - pi) = tan p" by (simp add: tan_def sin_diff cos_diff)
    have "arctan (tan (p - pi)) = p - pi" using b assms by (intro arctan_tan) simp_all
    then have "arctan (tan p) = p - pi" by (simp add: t)
    then show ?thesis using c s by (simp add: atan2_def tan_def)
  next
    case c
    have "0 < cos (p + pi)" using c assms by (intro cos_gt_zero_pi) simp_all
    then have c': "cos p < 0" by (simp add: cos_add)
    have "0 < sin (- p)" using c assms pi_gt_zero by (intro sin_gt_zero) linarith+
    then have s: "sin p < 0" by simp
    have t: "tan (p + pi) = tan p" by (simp add: tan_def sin_add cos_add)
    have "arctan (tan (p + pi)) = p + pi" using c assms by (intro arctan_tan) simp_all
    then have "arctan (tan p) = p + pi" by (simp add: t)
    then show ?thesis using c' s by (simp add: atan2_def tan_def)
  next
    case d
    have "atan2 (sin (pi / 2)) (cos (pi / 2)) = pi / 2" by (simp add: atan2_def)
    then show ?thesis unfolding d .
  next
    case e
    have "atan2 (sin (- pi / 2)) (cos (- pi / 2)) = - pi / 2" by (simp add: atan2_def)
    then show ?thesis unfolding e .
  qed
qed


lemma atan2_sin_cos: "\<exists>k::int. atan2 (sin t) (cos t) = t + 2 * pi * of_int k"
proof -
  obtain p where p: "- pi < p" "p \<le> pi" "sin p = sin t" "cos p = cos t"
    using sincos_principal_value[of t] by blast
  then obtain n :: int where n: "p = t + 2 * pi * of_int n"
    using sin_cos_eq_iff[of p t] by auto
  have "atan2 (sin t) (cos t) = p"
    using atan2_sin_cos_principal[OF p(1,2)] p(3,4) by simp
  then show ?thesis using n by blast
qed

lemma atan2_ray:
  assumes "0 < r"
  shows "\<exists>k::int. atan2 (r * sin t) (r * cos t) = t + 2 * pi * of_int k"
  using atan2_sin_cos[of t] atan2_scale[OF assms, of "sin t" "cos t"] by simp

lemma rayRect_direction:
  assumes "0 < hw" "0 < hh" "u \<noteq> 0 \<or> v \<noteq> 0"
  shows "\<exists>r>0. rayRectFromCenter cx cy (cx + u) (cy + v) hw hh =
                  \<lparr> pt_x = cx + u * r, pt_y = cy + v * r \<rparr>"
proof (cases "\<bar>u\<bar> / hw > \<bar>v\<bar> / hh")
  case True
  have "0 \<le> \<bar>v\<bar> / hh" using assms(2) by simp
  with True have "0 < \<bar>u\<bar> / hw" by linarith
  then have "0 < \<bar>u\<bar>" using assms(1) by (simp add: zero_less_divide_iff)
  then have "0 < hw / \<bar>u\<bar>" using assms(1) by simp
  then show ?thesis using True assms(3)
    by (intro exI[of _ "hw / \<bar>u\<bar>"]) (auto simp: rayRectFromCenter_def Let_def)
next
  case False
  have "0 < \<bar>v\<bar>"
  proof (rule ccontr)
    assume "\<not> 0 < \<bar>v\<bar>"
    then have v: "v = 0" by simp
    with False have "\<bar>u\<bar> / hw \<le> 0" by simp
    then have "u = 0" using assms(1) by (simp add: divide_le_0_iff)
    with v assms(3) show False by simp
  qed
  then have "0 < hh / \<bar>v\<bar>" using assms(2) by simp
  then show ?thesis using False assms(3)
    by (intro exI[of _ "hh / \<bar>v\<bar>"]) (auto simp: rayRectFromCenter_def Let_def)
qed

lemma rayDiamond_direction:
  assumes "0 < hw" "0 < hh" "u \<noteq> 0 \<or> v \<noteq> 0"
  shows "\<exists>r>0. rayDiamondFromCenter cx cy (cx + u) (cy + v) hw hh =
                  \<lparr> pt_x = cx + u * r, pt_y = cy + v * r \<rparr>"
proof -
  have "0 < \<bar>u\<bar> / hw + \<bar>v\<bar> / hh"
  proof (cases "u = 0")
    case True
    with assms(3) have "0 < \<bar>v\<bar> / hh" using assms(2) by simp
    with True show ?thesis by simp
  next
    case False
    then have "0 < \<bar>u\<bar> / hw" using assms(1) by simp
    moreover have "0 \<le> \<bar>v\<bar> / hh" using assms(2) by simp
    ultimately show ?thesis by linarith
  qed
  then have "0 < 1 / (\<bar>u\<bar> / hw + \<bar>v\<bar> / hh)" by simp
  then show ?thesis using assms(3)
    by (intro exI[of _ "1 / (\<bar>u\<bar> / hw + \<bar>v\<bar> / hh)"])
       (auto simp: rayDiamondFromCenter_def Let_def)
qed

lemma far_direction_nonzero: "cos t * 10000 \<noteq> (0::real) \<or> sin t * 10000 \<noteq> 0"
  using sin_zero_abs_cos_one[of t] by auto

lemma angle_roundtrip_rect_diamond:
  assumes ne: "stype s \<notin> set ellipseCases"
    and pos: "0 < b_w (getBounds s)" "0 < b_h (getBounds s)"
  shows "\<exists>k::int. angleFromCenter s (getBoundaryPointFromAngle s t) = t + 2 * pi * of_int k"
proof -
  let ?b = "getBounds s"
  let ?cx = "b_x ?b + b_w ?b / 2"
  let ?cy = "b_y ?b + b_h ?b / 2"
  let ?u = "cos t * 10000"
  let ?v = "sin t * 10000"
  have hw: "0 < b_w ?b / 2" and hh: "0 < b_h ?b / 2" using pos by simp_all
  have "\<exists>r>0. getBoundaryPointFromAngle s t = \<lparr> pt_x = ?cx + ?u * r, pt_y = ?cy + ?v * r \<rparr>"
  proof (cases "stype s \<in> set diamondCases \<and> stype s \<notin> set rectCases")
    case True
    then show ?thesis
      using rayDiamond_direction[OF hw hh far_direction_nonzero[of t], of ?cx ?cy] ne
      by (simp add: getBoundaryPointFromAngle_def getBoundaryPoint_def Let_def)
  next
    case False
    then show ?thesis
      using rayRect_direction[OF hw hh far_direction_nonzero[of t], of ?cx ?cy] ne
      by (auto simp: getBoundaryPointFromAngle_def getBoundaryPoint_def Let_def)
  qed
  then obtain r where r: "0 < r"
    "getBoundaryPointFromAngle s t = \<lparr> pt_x = ?cx + ?u * r, pt_y = ?cy + ?v * r \<rparr>" by blast
  have "angleFromCenter s (getBoundaryPointFromAngle s t) = atan2 (?v * r) (?u * r)"
    by (simp add: r(2) angleFromCenter_def Let_def)
  also have "\<dots> = atan2 ((10000 * r) * sin t) ((10000 * r) * cos t)"
    by (simp add: mult.commute mult.left_commute)
  finally have "angleFromCenter s (getBoundaryPointFromAngle s t) =
                  atan2 ((10000 * r) * sin t) ((10000 * r) * cos t)" .
  moreover have "0 < 10000 * r" using r(1) by simp
  ultimately show ?thesis using atan2_ray[of "10000 * r" t] by simp
qed

end
